theory Spec2Isabelle
  imports Complex_Main
begin

chapter \<open>The program\<close>

section \<open>Errors\<close>

text \<open>
  Every exception the Python sources can raise from their own statements is a value.
  \<open>FrameworkError\<close> stands for an exception raised inside the tensor framework
  (mlx); \<open>Unmodelled\<close> marks the places where the model stops because it does not
  describe what the framework does there: operands of different shapes, which the
  framework broadcasts or refuses, and an index outside its axis.
\<close>

datatype error =
    AssertionError
  | UnboundLocalError
  | IndexError
  | ZeroDivisionError
  | TypeError
  | ValueError
  | OverflowError
  | FrameworkError
  | Unmodelled

section \<open>Model configuration and construction (recurrent\_gemma.py)\<close>

subsection \<open>ModelArgs\<close>

text \<open>
  The dataclass \<open>ModelArgs\<close>. The two optional list fields are \<open>block_types\<close> and
  \<open>_block_types\<close> (here \<open>block_types_alt\<close>, since an Isabelle name cannot start with
  an underscore). Floats are reals.
\<close>

record ModelArgs =
  model_type :: string
  attention_bias :: bool
  conv1d_width :: int
  hidden_size :: int
  intermediate_size :: int
  logits_soft_cap :: real
  num_attention_heads :: int
  num_hidden_layers :: int
  num_key_value_heads :: int
  rms_norm_eps :: real
  rope_theta :: real
  attention_window_size :: int
  vocab_size :: int
  embeddings_scale_by_sqrt_dim :: bool
  block_types :: "string list option"
  block_types_alt :: "string list option"

definition post_init :: "ModelArgs \<Rightarrow> ModelArgs" where
  "post_init args =
     (if block_types args = None then args\<lparr>block_types := block_types_alt args\<rparr>
      else args)"

subsection \<open>The blocks\<close>

text \<open>
  Construction of the sub-modules keeps the integers the constructors compute and the
  exceptions those computations raise: \<open>width // num_heads\<close> in \<open>RGLRU.__init__\<close>
  and \<open>(width // num_heads) ** (-0.5)\<close> in \<open>LocalAttentionBlock.__init__\<close>. The
  learned weights are not part of this record; they enter the forward pass as
  parameters of the framework kernels.
\<close>

record RGLRU =
  rglru_width :: int
  rglru_num_heads :: int
  rglru_head_dim :: int

definition RGLRU_init :: "int \<Rightarrow> int \<Rightarrow> error + RGLRU" where
  "RGLRU_init width num_heads =
     (if num_heads = 0 then Inl ZeroDivisionError
      else Inr \<lparr>rglru_width = width, rglru_num_heads = num_heads,
                rglru_head_dim = width div num_heads\<rparr>)"

record RecurrentBlock =
  rb_width :: int
  rb_num_heads :: int
  rb_lru_width :: int
  rb_conv1d_temporal_width :: int
  rb_rg_lru :: RGLRU

text \<open>\<open>lru_width or width\<close>: Python's \<open>or\<close> takes \<open>width\<close> when \<open>lru_width\<close> is
  \<open>None\<close> or \<open>0\<close>.\<close>

definition RecurrentBlock_init :: "int \<Rightarrow> int \<Rightarrow> int option \<Rightarrow> int \<Rightarrow> error + RecurrentBlock" where
  "RecurrentBlock_init width num_heads lru_width conv1d_temporal_width =
     (let lw = (case lru_width of None \<Rightarrow> width | Some w \<Rightarrow> if w = 0 then width else w)
      in case RGLRU_init lw num_heads of
           Inl e \<Rightarrow> Inl e
         | Inr r \<Rightarrow> Inr \<lparr>rb_width = width, rb_num_heads = num_heads, rb_lru_width = lw,
                         rb_conv1d_temporal_width = conv1d_temporal_width, rb_rg_lru = r\<rparr>)"

record LocalAttentionBlock =
  la_width :: int
  la_num_heads :: int
  la_window_size :: int
  la_head_dim :: int

text \<open>\<open>(width // num_heads) ** (-0.5)\<close> raises \<open>ZeroDivisionError\<close> when
  \<open>num_heads\<close> is zero and when the quotient is zero.\<close>

definition LocalAttentionBlock_init :: "int \<Rightarrow> int \<Rightarrow> int \<Rightarrow> error + LocalAttentionBlock" where
  "LocalAttentionBlock_init width num_heads window_size =
     (if num_heads = 0 then Inl ZeroDivisionError
      else if width div num_heads = 0 then Inl ZeroDivisionError
      else Inr \<lparr>la_width = width, la_num_heads = num_heads, la_window_size = window_size,
                la_head_dim = width div num_heads\<rparr>)"

datatype temporal_block = Recurrent RecurrentBlock | LocalAttention LocalAttentionBlock

record ResidualBlock =
  width :: int
  mlp_expanded_width :: int
  num_heads :: int
  res_attention_window_size :: int
  temporal_block_type :: string
  lru_width :: "int option"
  conv1d_temporal_width :: int
  temporal_block :: temporal_block

definition ResidualBlock_init ::
  "int \<Rightarrow> int \<Rightarrow> int \<Rightarrow> int \<Rightarrow> string \<Rightarrow> int option \<Rightarrow> int \<Rightarrow> error + ResidualBlock" where
  "ResidualBlock_init w mlp_w heads window tbt lru_w conv_w =
     (case (if tbt = ''recurrent''
            then (case RecurrentBlock_init w heads lru_w conv_w of
                    Inl e \<Rightarrow> Inl e | Inr b \<Rightarrow> Inr (Recurrent b))
            else (case LocalAttentionBlock_init w heads window of
                    Inl e \<Rightarrow> Inl e | Inr b \<Rightarrow> Inr (LocalAttention b))) of
        Inl e \<Rightarrow> Inl e
      | Inr tb \<Rightarrow>
          Inr \<lparr>width = w, mlp_expanded_width = mlp_w, num_heads = heads,
               res_attention_window_size = window, temporal_block_type = tbt,
               lru_width = lru_w, conv1d_temporal_width = conv_w, temporal_block = tb\<rparr>)"

subsection \<open>Griffin.\_\_init\_\_\<close>

text \<open>
  The list comprehension over \<open>range(config.num_hidden_layers)\<close>. For each \<open>i\<close> it
  evaluates \<open>block_types[i % len(block_types)]\<close>: \<open>len(None)\<close> raises
  \<open>TypeError\<close>, \<open>i % 0\<close> raises \<open>ZeroDivisionError\<close>. The first exception ends
  the construction. \<open>ResidualBlock\<close> is called without \<open>conv1d_temporal_width\<close>,
  so its default 4 applies, and with \<open>lru_width=None\<close>.
\<close>

definition layer_type :: "string list option \<Rightarrow> nat \<Rightarrow> error + string" where
  "layer_type bts i =
     (case bts of
        None \<Rightarrow> Inl TypeError
      | Some ts \<Rightarrow> if length ts = 0 then Inl ZeroDivisionError
                   else Inr (ts ! (i mod length ts)))"

definition make_layer :: "ModelArgs \<Rightarrow> nat \<Rightarrow> error + ResidualBlock" where
  "make_layer config i =
     (case layer_type (block_types config) i of
        Inl e \<Rightarrow> Inl e
      | Inr tbt \<Rightarrow>
          ResidualBlock_init (hidden_size config) (intermediate_size config)
            (num_attention_heads config) (attention_window_size config) tbt None 4)"

fun build_layers :: "ModelArgs \<Rightarrow> nat list \<Rightarrow> error + ResidualBlock list" where
  "build_layers config [] = Inr []"
| "build_layers config (i # is) =
     (case make_layer config i of
        Inl e \<Rightarrow> Inl e
      | Inr b \<Rightarrow> (case build_layers config is of
                    Inl e \<Rightarrow> Inl e
                  | Inr bs \<Rightarrow> Inr (b # bs)))"

record Griffin =
  config :: ModelArgs
  scale_by_sqrt_dim :: bool
  layers :: "ResidualBlock list"

definition Griffin_init :: "ModelArgs \<Rightarrow> error + Griffin" where
  "Griffin_init cfg =
     (case build_layers cfg [0..<nat (num_hidden_layers cfg)] of
        Inl e \<Rightarrow> Inl e
      | Inr ls \<Rightarrow> Inr \<lparr>config = cfg,
                       scale_by_sqrt_dim = embeddings_scale_by_sqrt_dim cfg,
                       layers = ls\<rparr>)"

subsection \<open>Model and make\_cache\<close>

record Model =
  args :: ModelArgs
  model :: Griffin

definition Model_init :: "ModelArgs \<Rightarrow> error + Model" where
  "Model_init cfg =
     (case Griffin_init cfg of
        Inl e \<Rightarrow> Inl e
      | Inr g \<Rightarrow> Inr \<lparr>args = cfg, model = g\<rparr>)"

text \<open>
  The two cache classes come from \<open>cache.py\<close>, which is not among the sources. A cache
  object is recorded by the constructor that \<open>make_cache\<close> calls and the argument it
  passes.
\<close>

datatype cache_entry = MambaCache | RotatingKVCache (max_size: int)

text \<open>The loop of \<open>make_cache\<close>: one \<open>append\<close> per layer, in the order of
  \<open>self.layers\<close>.\<close>

fun make_cache_loop :: "Model \<Rightarrow> ResidualBlock list \<Rightarrow> cache_entry list \<Rightarrow> cache_entry list" where
  "make_cache_loop m [] cache = cache"
| "make_cache_loop m (layer # rest) cache =
     (if temporal_block_type layer = ''recurrent''
      then make_cache_loop m rest (cache @ [MambaCache])
      else make_cache_loop m rest
             (cache @ [RotatingKVCache (attention_window_size (args m))]))"

definition make_cache :: "Model \<Rightarrow> cache_entry list" where
  "make_cache m = make_cache_loop m (layers (model m)) []"

section \<open>Arrays\<close>

text \<open>
  A framework array is its shape together with its entries as nested lists (outermost
  axis first). The shape is kept apart from the entries because an axis of size 0 leaves
  no entries to read the other sizes from. \<open>wf2\<close> and \<open>wf3\<close> say that the entries
  fill the shape. A one-dimensional array is a list. Entries are of any type \<open>'a\<close>.
  The definitions of \<open>rnn_scan\<close> use the \<open>*\<close>, \<open>+\<close> and \<open>0\<close> of the entry type and
  assume no law of them, so they apply to floating point with its rounding and special
  values, to wrapping integers and to exact numbers alike.
\<close>

record 'a array2 =
  shape2 :: "nat \<times> nat"
  rows2 :: "'a list list"

record 'a array3 =
  shape3 :: "nat \<times> nat \<times> nat"
  vals3 :: "'a list list list"

definition wf2 :: "'a array2 \<Rightarrow> bool" where
  "wf2 h = (case shape2 h of (B, D) \<Rightarrow>
              length (rows2 h) = B \<and> list_all (\<lambda>v. length v = D) (rows2 h))"

definition wf3 :: "'a array3 \<Rightarrow> bool" where
  "wf3 x = (case shape3 x of (B, L, D) \<Rightarrow>
              length (vals3 x) = B \<and>
              list_all (\<lambda>r. length r = L \<and> list_all (\<lambda>v. length v = D) r) (vals3 x))"

text \<open>Entry \<open>x[b, t, d]\<close> and \<open>h[b, d]\<close>, for indices inside the shape.\<close>

definition el3 :: "'a array3 \<Rightarrow> nat \<Rightarrow> nat \<Rightarrow> nat \<Rightarrow> 'a" where
  "el3 x b t d = vals3 x ! b ! t ! d"

definition el2 :: "'a array2 \<Rightarrow> nat \<Rightarrow> nat \<Rightarrow> 'a" where
  "el2 h b d = rows2 h ! b ! d"

section \<open>The training script (pt.py)\<close>

subsection \<open>Python integer operators\<close>

text \<open>\<open>a // b\<close> and \<open>a % b\<close> on Python integers: floor division and its remainder,
  which are \<open>div\<close> and \<open>mod\<close> on \<open>int\<close>; a zero divisor raises.\<close>

definition py_floordiv :: "int \<Rightarrow> int \<Rightarrow> error + int" where
  "py_floordiv a b = (if b = 0 then Inl ZeroDivisionError else Inr (a div b))"

definition py_mod :: "int \<Rightarrow> int \<Rightarrow> error + int" where
  "py_mod a b = (if b = 0 then Inl ZeroDivisionError else Inr (a mod b))"

text \<open>The slice \<open>xs[:stop]\<close>: a negative \<open>stop\<close> counts from the end, and the bounds
  are clamped to the list.\<close>

definition slice_to :: "int \<Rightarrow> 'a list \<Rightarrow> 'a list" where
  "slice_to stop xs =
     (if stop < 0 then take (nat (int (length xs) + stop)) xs else take (nat stop) xs)"

subsection \<open>to\_samples\<close>

text \<open>
  The framework's \<open>reshape(samples, -1)\<close> of a one-dimensional array, taken from the
  framework's behaviour: the row length is inferred as \<open>size / samples\<close>, the entries
  are laid out row by row, and the call raises when \<open>samples\<close> is not positive (the
  missing dimension of an empty array cannot be inferred) or does not divide the size.
\<close>

definition reshape_rows :: "int \<Rightarrow> 'a list \<Rightarrow> error + 'a array2" where
  "reshape_rows samples xs =
     (if samples \<le> 0 then Inl FrameworkError
      else if length xs mod nat samples \<noteq> 0 then Inl FrameworkError
      else (let w = length xs div nat samples
            in Inr \<lparr>shape2 = (nat samples, w),
                    rows2 = map (\<lambda>i. take w (drop (i * w) xs)) [0..<nat samples]\<rparr>))"

definition to_samples :: "int \<Rightarrow> 'a list \<Rightarrow> error + 'a array2" where
  "to_samples context_size dataset =
     (let window_size = context_size + 1
      in case py_floordiv (int (length dataset)) window_size of
           Inl e \<Rightarrow> Inl e
         | Inr samples \<Rightarrow> reshape_rows samples (slice_to (samples * window_size) dataset))"

subsection \<open>The training loop of main\<close>

text \<open>The command-line arguments (\<open>argparse\<close>): integers are Python integers, floats
  are reals.\<close>

record TrainArgs =
  gpu :: bool
  seed :: int
  dataset :: string
  context_size :: int
  batch_size :: int
  num_iters :: int
  learning_rate :: real
  weight_decay :: real
  lr_warmup :: int
  steps_per_report :: int
  steps_per_eval :: int
  eval_test :: bool
  model_path :: string
  save_path :: string
  save_every :: int

text \<open>
  What a run takes from outside the script: the tokens of the dataset
  (\<open>tokenizer.encode(text)\<close>), and the numbers that come back from the framework and the
  clock and on which the script's own arithmetic can raise: the time \<open>toc - tic\<close> that the
  report of an iteration divides by, and whether \<open>math.exp\<close> of a validation or test loss
  is out of the range of floats.
\<close>

record Env =
  dataset_tokens :: "int list"
  elapsed :: "int \<Rightarrow> real"
  ppl_overflow :: "int \<Rightarrow> bool"
  test_ppl_overflow :: bool

text \<open>
  What a run does is recorded as the sequence of its effects, together with the exception
  that ended it, if any. The calls into the framework (the compiled gradient step, the
  loss, the printing, the writing of a file) are events and are taken to return; the
  script's own statements raise as Python does. \<open>Save_safetensors dir file\<close> is
  \<open>mx.save_safetensors(str(Path(dir) / file), ...)\<close>. \<open>and_then\<close> is sequencing: what
  follows an exception does not happen.
\<close>

datatype event =
    Set_learning_rate real
  | Step int
  | Report int
  | Validate int
  | Save_safetensors string string
  | Test_eval

type_synonym outcome = "event list \<times> error option"

fun and_then :: "outcome \<Rightarrow> outcome \<Rightarrow> outcome" where
  "and_then (ev, Some e) _ = (ev, Some e)"
| "and_then (ev, None) (ev', r) = (ev @ ev', r)"

text \<open>
  The generator \<open>iterate_batches\<close>. Its body starts at the first \<open>next\<close>: it calls
  \<open>to_samples\<close>, which can raise, and from then on it yields batches without end, each
  made by the framework (a permutation, a slice of it, an indexing). The model returns
  the array of samples the batches are drawn from.
\<close>

definition iterate_batches :: "int \<Rightarrow> int \<Rightarrow> 'a list \<Rightarrow> error + 'a array2" where
  "iterate_batches batch_sz context_sz ds = to_samples context_sz ds"

text \<open>
  \<open>eval_fn\<close>: \<open>to_samples\<close>; the loop over \<open>range(0, inputs.shape[0], batch_size)\<close>,
  where a step of zero raises \<open>ValueError\<close>; and the division of the summed loss by
  \<open>inputs.size - inputs.shape[0]\<close>. \<open>None\<close> says that the call returns a loss.
\<close>

definition eval_fn :: "TrainArgs \<Rightarrow> int list \<Rightarrow> error option" where
  "eval_fn a ds =
     (case to_samples (context_size a) ds of
        Inl e \<Rightarrow> Some e
      | Inr inputs \<Rightarrow>
          if batch_size a = 0 then Some ValueError
          else (case shape2 inputs of (rows, cols) \<Rightarrow>
                  if int (rows * cols) - int rows = 0 then Some ZeroDivisionError
                  else None))"

text \<open>\<open>valid = tokens[: len(tokens) // 10]\<close>, and \<open>test\<close> likewise.\<close>

definition valid_split :: "'a list \<Rightarrow> 'a list" where
  "valid_split ts = take (length ts div 10) ts"

text \<open>\<open>min(1, it / args.lr_warmup) * args.learning_rate\<close>; the true division raises on
  a zero divisor.\<close>

definition warmup_rate :: "int \<Rightarrow> int \<Rightarrow> real \<Rightarrow> error + real" where
  "warmup_rate it warmup rate =
     (if warmup = 0 then Inl ZeroDivisionError
      else Inr (min 1 (real_of_int it / real_of_int warmup) * rate))"

text \<open>The format \<open>{n:06d}\<close>: the decimal digits, padded with zeros on the left to six
  characters, the sign (if any) first.\<close>

fun digits :: "nat \<Rightarrow> string" where
  "digits n = (if n < 10 then [''0123456789'' ! n]
               else digits (n div 10) @ [''0123456789'' ! (n mod 10)])"

definition zfill :: "nat \<Rightarrow> string \<Rightarrow> string" where
  "zfill w s = replicate (w - length s) (CHR ''0'') @ s"

definition fmt_06d :: "int \<Rightarrow> string" where
  "fmt_06d n = (if n < 0 then CHR ''-'' # zfill 5 (digits (nat (- n)))
                else zfill 6 (digits (nat n)))"

definition checkpoint_name :: "int \<Rightarrow> string" where
  "checkpoint_name n = ''checkpoint_'' @ fmt_06d n @ ''.safetensors''"

text \<open>The body of the \<open>for\<close> loop in its four parts: lines 93 to 96, 97 to 105, 106 to
  115 and 116 to 121.\<close>

definition set_rate_and_step :: "TrainArgs \<Rightarrow> int \<Rightarrow> outcome" where
  "set_rate_and_step a it =
     (case warmup_rate it (lr_warmup a) (learning_rate a) of
        Inl e \<Rightarrow> ([], Some e)
      | Inr lr \<Rightarrow> ([Set_learning_rate lr, Step it], None))"

definition report :: "TrainArgs \<Rightarrow> Env \<Rightarrow> int \<Rightarrow> outcome" where
  "report a env it =
     (case py_mod (it + 1) (steps_per_report a) of
        Inl e \<Rightarrow> ([], Some e)
      | Inr r \<Rightarrow>
          if r \<noteq> 0 then ([], None)
          else if elapsed env it = 0 then ([], Some ZeroDivisionError)
          else ([Report (it + 1)], None))"

definition validate :: "TrainArgs \<Rightarrow> Env \<Rightarrow> int \<Rightarrow> outcome" where
  "validate a env it =
     (case py_mod (it + 1) (steps_per_eval a) of
        Inl e \<Rightarrow> ([], Some e)
      | Inr r \<Rightarrow>
          if r \<noteq> 0 then ([], None)
          else (case eval_fn a (valid_split (dataset_tokens env)) of
                  Some e \<Rightarrow> ([], Some e)
                | None \<Rightarrow>
                    if ppl_overflow env it then ([], Some OverflowError)
                    else ([Validate (it + 1)], None)))"

definition save_checkpoint :: "TrainArgs \<Rightarrow> int \<Rightarrow> outcome" where
  "save_checkpoint a it =
     (if save_every a > 0 \<and> (it + 1) mod save_every a = 0
      then ([Save_safetensors (save_path a) (checkpoint_name (it + 1))], None)
      else ([], None))"

text \<open>One pass through the body of the loop.\<close>

definition iteration :: "TrainArgs \<Rightarrow> Env \<Rightarrow> int \<Rightarrow> outcome" where
  "iteration a env it =
     and_then (set_rate_and_step a it)
       (and_then (report a env it)
          (and_then (validate a env it) (save_checkpoint a it)))"

fun train_loop :: "TrainArgs \<Rightarrow> Env \<Rightarrow> int list \<Rightarrow> outcome" where
  "train_loop a env [] = ([], None)"
| "train_loop a env (it # its) = and_then (iteration a env it) (train_loop a env its)"

text \<open>\<open>range(n)\<close> as a list of integers; it is empty for \<open>n \<le> 0\<close>.\<close>

definition py_range :: "int \<Rightarrow> int list" where
  "py_range n = map int [0..<nat n]"

text \<open>
  The loop \<open>for it, inputs in zip(range(args.num_iters), train_iterator)\<close>, lines 89 to
  121. \<open>zip\<close> asks the range first, so with no iteration to run the generator is never
  started; otherwise its first \<open>next\<close> comes before iteration 0.
\<close>

definition training :: "TrainArgs \<Rightarrow> Env \<Rightarrow> outcome" where
  "training a env =
     (case py_range (num_iters a) of
        [] \<Rightarrow> ([], None)
      | it # its \<Rightarrow>
          (case iterate_batches (batch_size a) (context_size a) (dataset_tokens env) of
             Inl e \<Rightarrow> ([], Some e)
           | Inr inputs \<Rightarrow> train_loop a env (it # its)))"

text \<open>Lines 129 to 132.\<close>

definition test_eval :: "TrainArgs \<Rightarrow> Env \<Rightarrow> outcome" where
  "test_eval a env =
     (if eval_test a
      then (case eval_fn a (valid_split (dataset_tokens env)) of
              Some e \<Rightarrow> ([], Some e)
            | None \<Rightarrow>
                if test_ppl_overflow env then ([], Some OverflowError)
                else ([Test_eval], None))
      else ([], None))"

text \<open>
  \<open>main\<close> from line 89 on, for a run that has loaded the tokenizer, the dataset and the
  model: the training loop, the final checkpoint, the test evaluation.
\<close>

definition main :: "TrainArgs \<Rightarrow> Env \<Rightarrow> outcome" where
  "main a env =
     and_then (training a env)
       (and_then ([Save_safetensors (save_path a) ''final.safetensors''], None)
          (test_eval a env))"

text \<open>The gradient steps and the files written, in the order of the run.\<close>

fun is_step_or_save :: "event \<Rightarrow> bool" where
  "is_step_or_save (Step _) = True"
| "is_step_or_save (Save_safetensors _ _) = True"
| "is_step_or_save _ = False"

definition steps_and_saves :: "event list \<Rightarrow> event list" where
  "steps_and_saves evs = filter is_step_or_save evs"

text \<open>What iteration \<open>it\<close> contributes to the steps and saves of a run that is not
  interrupted: the gradient step, then the checkpoint if one is due.\<close>

definition step_and_save :: "TrainArgs \<Rightarrow> int \<Rightarrow> event list" where
  "step_and_save a it =
     Step it # (if 0 < save_every a \<and> save_every a dvd it + 1
                then [Save_safetensors (save_path a) (checkpoint_name (it + 1))] else [])"

section \<open>Array operations of the framework\<close>

text \<open>
  The operations of \<open>mlx.core\<close> that the model code calls, on the shapes the model code
  gives them. An elementwise operation on two arrays of the same shape works entry by
  entry. On operands of different shapes the framework broadcasts or raises, and for an
  index outside an axis it gives no guarantee: in both cases the model stops with
  \<open>Unmodelled\<close>.
\<close>

definition zeros2 :: "nat \<times> nat \<Rightarrow> 'a::zero array2" where
  "zeros2 s = (case s of (B, D) \<Rightarrow>
                 \<lparr>shape2 = (B, D), rows2 = replicate B (replicate D 0)\<rparr>)"

definition zeros_like :: "'a::zero array3 \<Rightarrow> 'a array3" where
  "zeros_like x = (case shape3 x of (B, L, D) \<Rightarrow>
                     \<lparr>shape3 = (B, L, D),
                      vals3 = replicate B (replicate L (replicate D 0))\<rparr>)"

text \<open>An integer index into an axis of size \<open>n\<close>: a negative index counts from the
  end.\<close>

definition axis_index :: "int \<Rightarrow> nat \<Rightarrow> error + nat" where
  "axis_index i n =
     (let j = (if i < 0 then int n + i else i)
      in if 0 \<le> j \<and> j < int n then Inr (nat j) else Inl Unmodelled)"

text \<open>\<open>x[:, i]\<close>, of shape \<open>(B, D)\<close>.\<close>

definition frame :: "'a array3 \<Rightarrow> int \<Rightarrow> error + 'a array2" where
  "frame x i =
     (case shape3 x of (B, L, D) \<Rightarrow>
        (case axis_index i L of
           Inl e \<Rightarrow> Inl e
         | Inr t \<Rightarrow> Inr \<lparr>shape2 = (B, D), rows2 = map (\<lambda>r. r ! t) (vals3 x)\<rparr>))"

text \<open>\<open>y[:, i] = h\<close>, for \<open>h\<close> of shape \<open>(B, D)\<close>.\<close>

definition set_frame :: "'a array3 \<Rightarrow> int \<Rightarrow> 'a array2 \<Rightarrow> error + 'a array3" where
  "set_frame y i h =
     (case shape3 y of (B, L, D) \<Rightarrow>
        (case axis_index i L of
           Inl e \<Rightarrow> Inl e
         | Inr t \<Rightarrow>
             if shape2 h = (B, D)
             then Inr (y\<lparr>vals3 := map2 (\<lambda>r v. r[t := v]) (vals3 y) (rows2 h)\<rparr>)
             else Inl Unmodelled))"

text \<open>\<open>h[:, None]\<close>, of shape \<open>(B, 1, D)\<close>.\<close>

definition expand_axis1 :: "'a array2 \<Rightarrow> 'a array3" where
  "expand_axis1 h = (case shape2 h of (B, D) \<Rightarrow>
                       \<lparr>shape3 = (B, 1, D), vals3 = map (\<lambda>v. [v]) (rows2 h)\<rparr>)"

text \<open>Elementwise \<open>*\<close> and \<open>+\<close>.\<close>

definition mul2 :: "'a::times array2 \<Rightarrow> 'a array2 \<Rightarrow> error + 'a array2" where
  "mul2 p q =
     (if shape2 p = shape2 q
      then Inr \<lparr>shape2 = shape2 p, rows2 = map2 (map2 (*)) (rows2 p) (rows2 q)\<rparr>
      else Inl Unmodelled)"

definition add2 :: "'a::plus array2 \<Rightarrow> 'a array2 \<Rightarrow> error + 'a array2" where
  "add2 p q =
     (if shape2 p = shape2 q
      then Inr \<lparr>shape2 = shape2 p, rows2 = map2 (map2 (+)) (rows2 p) (rows2 q)\<rparr>
      else Inl Unmodelled)"

definition mul3 :: "'a::times array3 \<Rightarrow> 'a array3 \<Rightarrow> error + 'a array3" where
  "mul3 p q =
     (if shape3 p = shape3 q
      then Inr \<lparr>shape3 = shape3 p, vals3 = map2 (map2 (map2 (*))) (vals3 p) (vals3 q)\<rparr>
      else Inl Unmodelled)"

definition add3 :: "'a::plus array3 \<Rightarrow> 'a array3 \<Rightarrow> error + 'a array3" where
  "add3 p q =
     (if shape3 p = shape3 q
      then Inr \<lparr>shape3 = shape3 p, vals3 = map2 (map2 (map2 (+))) (vals3 p) (vals3 q)\<rparr>
      else Inl Unmodelled)"

section \<open>rnn\_scan (recurrent\_gemma.py)\<close>

text \<open>
  The branch \<open>x.shape[1] == 1\<close> ("sampling mode"): without an initial state it returns
  \<open>(x, x[:, 0])\<close>, with one it computes \<open>y = a * h0[:, None] + x\<close> and returns
  \<open>(y, y[:, -1])\<close>.
\<close>

definition sampling_mode ::
  "'a::{zero,plus,times} array3 \<Rightarrow> 'a array3 \<Rightarrow> 'a array2 option \<Rightarrow> error + 'a array3 \<times> 'a array2" where
  "sampling_mode x a h0 =
     (case h0 of
        None \<Rightarrow> (case frame x 0 of Inl e \<Rightarrow> Inl e | Inr x0 \<Rightarrow> Inr (x, x0))
      | Some h \<Rightarrow>
          (case mul3 a (expand_axis1 h) of
             Inl e \<Rightarrow> Inl e
           | Inr ah \<Rightarrow>
               (case add3 ah x of
                  Inl e \<Rightarrow> Inl e
                | Inr y \<Rightarrow>
                    (case frame y (- 1) of Inl e \<Rightarrow> Inl e | Inr yl \<Rightarrow> Inr (y, yl)))))"

text \<open>
  The loop of the other branch ("linear mode"), over the list of the remaining values
  of \<open>t\<close>: \<open>h_t = a[:, t] * h_t + x[:, t]\<close>, then \<open>y[:, t] = h_t\<close>.
\<close>

fun scan_loop ::
  "nat list \<Rightarrow> 'a::{zero,plus,times} array3 \<Rightarrow> 'a array3 \<Rightarrow> 'a array2 \<Rightarrow> 'a array3
     \<Rightarrow> error + 'a array3 \<times> 'a array2" where
  "scan_loop [] x a h_t y = Inr (y, h_t)"
| "scan_loop (t # ts) x a h_t y =
     (case frame a (int t) of
        Inl e \<Rightarrow> Inl e
      | Inr a_t \<Rightarrow>
          (case mul2 a_t h_t of
             Inl e \<Rightarrow> Inl e
           | Inr m \<Rightarrow>
               (case frame x (int t) of
                  Inl e \<Rightarrow> Inl e
                | Inr x_t \<Rightarrow>
                    (case add2 m x_t of
                       Inl e \<Rightarrow> Inl e
                     | Inr h' \<Rightarrow>
                         (case set_frame y (int t) h' of
                            Inl e \<Rightarrow> Inl e
                          | Inr y' \<Rightarrow> scan_loop ts x a h' y')))))"

definition linear_mode ::
  "'a::{zero,plus,times} array3 \<Rightarrow> 'a array3 \<Rightarrow> 'a array2 option \<Rightarrow> error + 'a array3 \<times> 'a array2" where
  "linear_mode x a h0 =
     (case shape3 x of (B, L, D) \<Rightarrow>
        (let h_t = (case h0 of Some h \<Rightarrow> h | None \<Rightarrow> zeros2 (B, D));
             y = zeros_like x
         in scan_loop [0..<L] x a h_t y))"

text \<open>
  \<open>rnn_scan\<close>. Both arrays are three-dimensional and of one entry type here, which is
  what the first and the third assertion ask for; the second assertion compares the
  shapes.
\<close>

definition rnn_scan ::
  "'a::{zero,plus,times} array3 \<Rightarrow> 'a array3 \<Rightarrow> 'a array2 option \<Rightarrow> error + 'a array3 \<times> 'a array2" where
  "rnn_scan x a h0 =
     (if shape3 a \<noteq> shape3 x then Inl AssertionError
      else if fst (snd (shape3 x)) = 1 then sampling_mode x a h0
      else linear_mode x a h0)"

text \<open>The state before the first step: \<open>h0\<close>, or zero when \<open>h0\<close> is \<open>None\<close>.\<close>

definition initial_state :: "'a::zero array2 option \<Rightarrow> nat \<Rightarrow> nat \<Rightarrow> 'a" where
  "initial_state h0 b d = (case h0 of None \<Rightarrow> 0 | Some h \<Rightarrow> el2 h b d)"

subsection \<open>Entries with the special values of floating point\<close>

text \<open>
  An entry type with what sets floating point apart from a semiring: the two infinities
  and NaN, with the IEEE rules for them (\<open>inf * 0\<close> and \<open>inf - inf\<close> are NaN, NaN
  spreads). Finite values are real numbers here, so this type has no rounding and no
  signed zero; it serves to evaluate the code on coefficients that are not finite.
\<close>

datatype fval = Fin real | PInf | NInf | NaN

fun is_finite :: "fval \<Rightarrow> bool" where
  "is_finite (Fin _) = True"
| "is_finite _ = False"

instantiation fval :: "{zero, one, plus, times}"
begin

definition zero_fval :: fval where
  "zero_fval = Fin 0"

definition one_fval :: fval where
  "one_fval = Fin 1"

fun plus_fval :: "fval \<Rightarrow> fval \<Rightarrow> fval" where
  "plus_fval NaN _ = NaN"
| "plus_fval _ NaN = NaN"
| "plus_fval (Fin u) (Fin v) = Fin (u + v)"
| "plus_fval PInf NInf = NaN"
| "plus_fval NInf PInf = NaN"
| "plus_fval PInf _ = PInf"
| "plus_fval _ PInf = PInf"
| "plus_fval NInf _ = NInf"
| "plus_fval _ NInf = NInf"

fun times_fval :: "fval \<Rightarrow> fval \<Rightarrow> fval" where
  "times_fval NaN _ = NaN"
| "times_fval _ NaN = NaN"
| "times_fval (Fin u) (Fin v) = Fin (u * v)"
| "times_fval (Fin u) PInf = (if u = 0 then NaN else if 0 < u then PInf else NInf)"
| "times_fval (Fin u) NInf = (if u = 0 then NaN else if 0 < u then NInf else PInf)"
| "times_fval PInf (Fin v) = (if v = 0 then NaN else if 0 < v then PInf else NInf)"
| "times_fval NInf (Fin v) = (if v = 0 then NaN else if 0 < v then NInf else PInf)"
| "times_fval PInf PInf = PInf"
| "times_fval NInf NInf = PInf"
| "times_fval PInf NInf = NInf"
| "times_fval NInf PInf = NInf"

instance ..

end

section \<open>Conv1d (recurrent\_gemma.py)\<close>

text \<open>More array operations: \<open>mx.concatenate([c, x], axis=1)\<close>, which the framework
  refuses when the other two axes differ; \<open>mx.pad(x, [(0, 0), (n, 0), (0, 0)])\<close>, which
  puts \<open>n\<close> zero frames in front and refuses a negative \<open>n\<close>; the slice
  \<open>x[:, start:, :]\<close> with Python's reading of \<open>start\<close> (a negative one counts from the
  end, and both are clamped to the axis); and \<open>y + bias\<close> for a bias of one entry per
  channel.\<close>

definition concatenate1 :: "'a array3 \<Rightarrow> 'a array3 \<Rightarrow> error + 'a array3" where
  "concatenate1 c x =
     (case shape3 c of (B, Lc, D) \<Rightarrow>
        (case shape3 x of (B', L, D') \<Rightarrow>
           if B = B' \<and> D = D'
           then Inr \<lparr>shape3 = (B, Lc + L, D), vals3 = map2 (@) (vals3 c) (vals3 x)\<rparr>
           else Inl FrameworkError))"

definition pad_axis1_low :: "int \<Rightarrow> 'a::zero array3 \<Rightarrow> error + 'a array3" where
  "pad_axis1_low n x =
     (if n < 0 then Inl FrameworkError
      else (case shape3 x of (B, L, D) \<Rightarrow>
              Inr \<lparr>shape3 = (B, nat n + L, D),
                   vals3 = map (\<lambda>r. replicate (nat n) (replicate D 0) @ r) (vals3 x)\<rparr>))"

definition axis_start :: "int \<Rightarrow> nat \<Rightarrow> nat" where
  "axis_start start n = (if start < 0 then nat (int n + start) else min (nat start) n)"

definition slice_axis1_from :: "int \<Rightarrow> 'a array3 \<Rightarrow> 'a array3" where
  "slice_axis1_from start x =
     (case shape3 x of (B, L, D) \<Rightarrow>
        (let s = axis_start start L
         in \<lparr>shape3 = (B, L - s, D), vals3 = map (drop s) (vals3 x)\<rparr>))"

definition add_bias :: "'a::plus array3 \<Rightarrow> 'a list \<Rightarrow> error + 'a array3" where
  "add_bias y b =
     (case shape3 y of (B, L, C) \<Rightarrow>
        if length b = C
        then Inr (y\<lparr>vals3 := map (map (\<lambda>v. map2 (+) v b)) (vals3 y)\<rparr>)
        else Inl Unmodelled)"

text \<open>The module: \<open>weight\<close> of shape \<open>(channels, kernel_size, 1)\<close> and \<open>bias\<close> of shape
  \<open>(channels,)\<close>, both zero when constructed.\<close>

record 'a Conv1d =
  weight :: "'a array3"
  bias :: "'a list"

definition Conv1d_init :: "nat \<Rightarrow> nat \<Rightarrow> 'a::zero Conv1d" where
  "Conv1d_init channels kernel_size =
     \<lparr>weight = \<lparr>shape3 = (channels, kernel_size, 1),
                 vals3 = replicate channels (replicate kernel_size [0])\<rparr>,
      bias = replicate channels 0\<rparr>"

text \<open>
  \<open>Conv1d.__call__\<close>. The framework kernel \<open>mx.conv_general\<close> is a parameter. The
  cache returned is \<open>x[:, -K + 1 :, :]\<close> of the padded or concatenated input.
\<close>

definition Conv1d_call ::
  "('a array3 \<Rightarrow> 'a array3 \<Rightarrow> nat \<Rightarrow> error + 'a array3) \<Rightarrow> 'a::semiring_0 Conv1d \<Rightarrow>
     'a array3 \<Rightarrow> 'a array3 option \<Rightarrow> error + 'a array3 \<times> 'a array3" where
  "Conv1d_call conv_general m x cache =
     (case shape3 (weight m) of (groups, K, W) \<Rightarrow>
        (case (case cache of
                 Some c \<Rightarrow> concatenate1 c x
               | None \<Rightarrow> pad_axis1_low (int K - 1) x) of
           Inl e \<Rightarrow> Inl e
         | Inr x' \<Rightarrow>
             (case conv_general x' (weight m) groups of
                Inl e \<Rightarrow> Inl e
              | Inr y \<Rightarrow>
                  (case add_bias y (bias m) of
                     Inl e \<Rightarrow> Inl e
                   | Inr y' \<Rightarrow> Inr (y', slice_axis1_from (- int K + 1) x')))))"

text \<open>
  For the examples, the kernel that \<open>mx.conv_general\<close> applies to an input of shape
  \<open>(B, L, C)\<close> and a weight of shape \<open>(C, K, 1)\<close> with \<open>groups = C\<close>: a correlation
  along the time axis, channel by channel, of output length \<open>L - K + 1\<close>.
\<close>

definition depthwise_conv :: "'a::semiring_0 array3 \<Rightarrow> 'a array3 \<Rightarrow> nat \<Rightarrow> error + 'a array3" where
  "depthwise_conv x w groups =
     (case shape3 x of (B, L, C) \<Rightarrow>
        (case shape3 w of (G, K, W) \<Rightarrow>
           if G = groups \<and> C = groups \<and> W = 1 \<and> 0 < K \<and> K \<le> L
           then Inr \<lparr>shape3 = (B, L - K + 1, C),
                     vals3 = map (\<lambda>r. map (\<lambda>t. map (\<lambda>c.
                               sum_list (map (\<lambda>k. r ! (t + k) ! c * (vals3 w ! c ! k ! 0))
                                             [0..<K]))
                               [0..<C]) [0..<L - K + 1]) (vals3 x)\<rparr>
           else Inl Unmodelled))"

text \<open>A caller that feeds a sequence of inputs through one convolution module, handing
  each call the cache the call before returned.\<close>

fun conv_calls ::
  "('a array3 \<Rightarrow> 'a array3 \<Rightarrow> nat \<Rightarrow> error + 'a array3) \<Rightarrow> 'a::semiring_0 Conv1d \<Rightarrow>
     'a array3 list \<Rightarrow> 'a array3 option \<Rightarrow> error + 'a array3 option" where
  "conv_calls conv m [] cache = Inr cache"
| "conv_calls conv m (x # xs) cache =
     (case Conv1d_call conv m x cache of
        Inl e \<Rightarrow> Inl e
      | Inr (y, c) \<Rightarrow> conv_calls conv m xs (Some c))"

section \<open>RGLRU and RecurrentBlock: the forward pass\<close>

text \<open>
  The kernels of one recurrent block, with their learned weights, as functions on
  arrays: the three linear layers and the activation; the convolution; and, inside the
  RG-LRU, the input gate \<open>gate_x\<close>, the recurrence coefficient
  \<open>a = exp(-8 * gate_a * softplus(recurrent_param))\<close> and the normaliser
  \<open>sqrt(1 - a * a)\<close>, each as a function of the layer's input.
\<close>

record 'a block_kernels =
  linear_y :: "'a array3 \<Rightarrow> 'a array3"
  linear_x :: "'a array3 \<Rightarrow> 'a array3"
  linear_out :: "'a array3 \<Rightarrow> 'a array3"
  gelu_approx :: "'a array3 \<Rightarrow> 'a array3"
  conv_general :: "'a array3 \<Rightarrow> 'a array3 \<Rightarrow> nat \<Rightarrow> error + 'a array3"
  conv_1d :: "'a Conv1d"
  gate_x_of :: "'a array3 \<Rightarrow> 'a array3"
  a_of :: "'a array3 \<Rightarrow> 'a array3"
  multiplier_of :: "'a array3 \<Rightarrow> 'a array3"

text \<open>\<open>m[:, i, :] = v\<close> for a scalar \<open>v\<close>.\<close>

definition fill_frame :: "'a array3 \<Rightarrow> int \<Rightarrow> 'a \<Rightarrow> error + 'a array3" where
  "fill_frame m i v =
     (case shape3 m of (B, L, D) \<Rightarrow>
        (case axis_index i L of
           Inl e \<Rightarrow> Inl e
         | Inr t \<Rightarrow> Inr (m\<lparr>vals3 := map (\<lambda>r. r[t := replicate D v]) (vals3 m)\<rparr>)))"

definition RGLRU_call ::
  "'a::semiring_1 block_kernels \<Rightarrow> 'a array3 \<Rightarrow> 'a array2 option
     \<Rightarrow> error + 'a array3 \<times> 'a array2" where
  "RGLRU_call k x cache =
     (let gate_x = gate_x_of k x;
          a = a_of k x
      in case mul3 x gate_x of
           Inl e \<Rightarrow> Inl e
         | Inr gated_x \<Rightarrow>
             (case (if cache = None then fill_frame (multiplier_of k x) 0 1
                    else Inr (multiplier_of k x)) of
                Inl e \<Rightarrow> Inl e
              | Inr multiplier \<Rightarrow>
                  (case mul3 gated_x multiplier of
                     Inl e \<Rightarrow> Inl e
                   | Inr normalized_x \<Rightarrow> rnn_scan normalized_x a cache)))"

text \<open>
  The cache of a recurrent layer as \<open>RecurrentBlock.__call__\<close> uses it: an object with
  two slots, \<open>cache[0]\<close> and \<open>cache[1]\<close>. The call assigns to the slots, so the model
  returns the cache after the call next to the result; an exception leaves the slots as
  they were assigned up to then. Without a cache the call works on a fresh list
  \<open>[None, None]\<close>.
\<close>

record 'a slots =
  slot0 :: "'a array3 option"
  slot1 :: "'a array2 option"

definition RecurrentBlock_call ::
  "'a::semiring_1 block_kernels \<Rightarrow> 'a array3 \<Rightarrow> 'a slots option
     \<Rightarrow> (error + 'a array3) \<times> 'a slots" where
  "RecurrentBlock_call k x cache =
     (let y = gelu_approx k (linear_y k x);
          x1 = linear_x k x;
          c = (case cache of None \<Rightarrow> \<lparr>slot0 = None, slot1 = None\<rparr> | Some c \<Rightarrow> c)
      in case Conv1d_call (conv_general k) (conv_1d k) x1 (slot0 c) of
           Inl e \<Rightarrow> (Inl e, c)
         | Inr (x2, s0) \<Rightarrow>
             (let c1 = c\<lparr>slot0 := Some s0\<rparr>
              in case RGLRU_call k x2 (slot1 c1) of
                   Inl e \<Rightarrow> (Inl e, c1)
                 | Inr (x3, s1) \<Rightarrow>
                     (let c2 = c1\<lparr>slot1 := Some s1\<rparr>
                      in case mul3 x3 y of
                           Inl e \<Rightarrow> (Inl e, c2)
                         | Inr x4 \<Rightarrow> (Inr (linear_out k x4), c2))))"

section \<open>Griffin.\_\_call\_\_\<close>

text \<open>
  The forward pass of the stack. The embedding (with its scaling), the mask
  construction \<open>create_attention_mask\<close>, the residual blocks and the final norm are
  parameters; a block may end in an exception. The argument \<open>mask\<close> is \<open>msk\<close>
  here. \<open>'x\<close> is the type of activations,
  \<open>'m\<close> of masks, \<open>'c\<close> of per-layer caches. The local variable \<open>mask_cache\<close> is
  \<open>None\<close> while it is unbound.
\<close>

record ('t, 'x, 'm, 'c) stack_kernels =
  embed_tokens :: "'t \<Rightarrow> 'x"
  scale_embedding :: "'x \<Rightarrow> 'x"
  create_attention_mask :: "'x \<Rightarrow> 'c option list \<Rightarrow> 'm option"
  block_call :: "ResidualBlock \<Rightarrow> 'x \<Rightarrow> 'm option \<Rightarrow> 'c option \<Rightarrow> error + 'x"
  final_norm :: "'x \<Rightarrow> 'x"

text \<open>\<open>cache[i]\<close> on a Python list.\<close>

definition list_item :: "'a list \<Rightarrow> nat \<Rightarrow> error + 'a" where
  "list_item xs i = (if i < length xs then Inr (xs ! i) else Inl IndexError)"

text \<open>The first loop, lines 402 to 404: it binds \<open>mask_cache\<close> at every layer that is
  not recurrent.\<close>

fun find_mask_cache ::
  "(nat \<times> ResidualBlock) list \<Rightarrow> 'c option list \<Rightarrow> 'c option list option
     \<Rightarrow> error + 'c option list option" where
  "find_mask_cache [] cache mask_cache = Inr mask_cache"
| "find_mask_cache ((i, block) # rest) cache mask_cache =
     (if temporal_block_type block \<noteq> ''recurrent''
      then (case list_item cache i of
              Inl e \<Rightarrow> Inl e
            | Inr c \<Rightarrow> find_mask_cache rest cache (Some [c]))
      else find_mask_cache rest cache mask_cache)"

text \<open>The second loop, lines 409 and 410.\<close>

fun run_blocks ::
  "('t, 'x, 'm, 'c) stack_kernels \<Rightarrow> (nat \<times> ResidualBlock) list \<Rightarrow> 'c option list
     \<Rightarrow> 'm option \<Rightarrow> 'x \<Rightarrow> error + 'x" where
  "run_blocks k [] cache msk x = Inr x"
| "run_blocks k ((i, block) # rest) cache msk x =
     (case list_item cache i of
        Inl e \<Rightarrow> Inl e
      | Inr c \<Rightarrow>
          (case block_call k block x msk c of
             Inl e \<Rightarrow> Inl e
           | Inr x' \<Rightarrow> run_blocks k rest cache msk x'))"

definition Griffin_call ::
  "('t, 'x, 'm, 'c) stack_kernels \<Rightarrow> Griffin \<Rightarrow> 't \<Rightarrow> 'm option \<Rightarrow> 'c option list option
     \<Rightarrow> error + 'x" where
  "Griffin_call k g tokens msk cache =
     (let x0 = embed_tokens k tokens;
          x = (if scale_by_sqrt_dim g then scale_embedding k x0 else x0);
          cache' = (case cache of None \<Rightarrow> replicate (length (layers g)) None | Some c \<Rightarrow> c);
          blocks = zip [0..<length (layers g)] (layers g)
      in case find_mask_cache blocks cache' None of
           Inl e \<Rightarrow> Inl e
         | Inr mask_cache \<Rightarrow>
             (case (case msk of
                      None \<Rightarrow> (case mask_cache of
                                  None \<Rightarrow> Inl UnboundLocalError
                                | Some mc \<Rightarrow> Inr (create_attention_mask k x mc))
                    | Some m \<Rightarrow> Inr (Some m)) of
                Inl e \<Rightarrow> Inl e
              | Inr msk' \<Rightarrow>
                  (case run_blocks k blocks cache' msk' x of
                     Inl e \<Rightarrow> Inl e
                   | Inr x' \<Rightarrow> Inr (final_norm k x'))))"

section \<open>Concrete inputs\<close>

text \<open>A configuration in the style of the 2B checkpoint, which names its pattern
  \<open>_block_types\<close>, with five layers.\<close>

definition demo_config :: ModelArgs where
  "demo_config = post_init
     \<lparr>model_type = ''recurrent_gemma'', attention_bias = False, conv1d_width = 4,
      hidden_size = 2560, intermediate_size = 15360, logits_soft_cap = 30,
      num_attention_heads = 10, num_hidden_layers = 5, num_key_value_heads = 1,
      rms_norm_eps = 1 / 1000000, rope_theta = 10000, attention_window_size = 2048,
      vocab_size = 256000, embeddings_scale_by_sqrt_dim = True, block_types = None,
      block_types_alt = Some [''recurrent'', ''recurrent'', ''attention'']\<rparr>"

text \<open>A short training run: four iterations, a report and a checkpoint every second
  one, a validation every third; thirty tokens, so that the validation split holds one
  window of three.\<close>

definition demo_args :: TrainArgs where
  "demo_args = \<lparr>gpu = False, seed = 42, dataset = ''ptb'', context_size = 2,
     batch_size = 2, num_iters = 4, learning_rate = 3 / 10000, weight_decay = 1 / 100000,
     lr_warmup = 4, steps_per_report = 2, steps_per_eval = 3, eval_test = False,
     model_path = ''model'', save_path = ''out'', save_every = 2\<rparr>"

definition demo_env :: Env where
  "demo_env = \<lparr>dataset_tokens = map int [0..<30], elapsed = (\<lambda>it. 1),
     ppl_overflow = (\<lambda>it. False), test_ppl_overflow = False\<rparr>"

text \<open>Two inputs of shape \<open>(1, 3, 2)\<close>, one of shape \<open>(1, 1, 2)\<close>, and a state.\<close>

definition demo_x :: "int array3" where
  "demo_x = \<lparr>shape3 = (1, 3, 2), vals3 = [[[1, 2], [3, 4], [5, 6]]]\<rparr>"

definition demo_a :: "int array3" where
  "demo_a = \<lparr>shape3 = (1, 3, 2), vals3 = [[[2, 2], [3, 3], [1, 0]]]\<rparr>"

definition demo_x1 :: "int array3" where
  "demo_x1 = \<lparr>shape3 = (1, 1, 2), vals3 = [[[1, 2]]]\<rparr>"

definition demo_a1 :: "int array3" where
  "demo_a1 = \<lparr>shape3 = (1, 1, 2), vals3 = [[[2, 3]]]\<rparr>"

definition demo_h :: "int array2" where
  "demo_h = \<lparr>shape2 = (1, 2), rows2 = [[10, 20]]\<rparr>"

text \<open>Floating-point inputs of shape \<open>(1, 1, 2)\<close>: an input, a finite coefficient array,
  and a coefficient array with an infinite entry.\<close>

definition fl_x1 :: "fval array3" where
  "fl_x1 = \<lparr>shape3 = (1, 1, 2), vals3 = [[[Fin 1, Fin 2]]]\<rparr>"

definition fl_a1 :: "fval array3" where
  "fl_a1 = \<lparr>shape3 = (1, 1, 2), vals3 = [[[Fin 3, Fin (1 / 2)]]]\<rparr>"

definition fl_a_inf :: "fval array3" where
  "fl_a_inf = \<lparr>shape3 = (1, 1, 2), vals3 = [[[PInf, Fin 1]]]\<rparr>"

text \<open>Two convolution modules on two channels, of kernel size 1 and 2.\<close>

definition demo_conv1 :: "int Conv1d" where
  "demo_conv1 = \<lparr>weight = \<lparr>shape3 = (2, 1, 1), vals3 = [[[1]], [[1]]]\<rparr>, bias = [0, 0]\<rparr>"

definition demo_conv2 :: "int Conv1d" where
  "demo_conv2 = \<lparr>weight = \<lparr>shape3 = (2, 2, 1), vals3 = [[[1], [1]], [[1], [2]]]\<rparr>,
                 bias = [0, 100]\<rparr>"

text \<open>Kernels for one recurrent block: the linear layers and the activation are the
  identity, the gate, the coefficient and the normaliser are constant 1.\<close>

definition ones_like :: "'a::one array3 \<Rightarrow> 'a array3" where
  "ones_like x = (case shape3 x of (B, L, D) \<Rightarrow>
                    \<lparr>shape3 = (B, L, D),
                     vals3 = replicate B (replicate L (replicate D 1))\<rparr>)"

definition demo_kernels :: "int block_kernels" where
  "demo_kernels =
     \<lparr>linear_y = (\<lambda>x. x), linear_x = (\<lambda>x. x), linear_out = (\<lambda>x. x),
      gelu_approx = (\<lambda>x. x), conv_general = depthwise_conv, conv_1d = demo_conv2,
      gate_x_of = ones_like, a_of = ones_like, multiplier_of = ones_like\<rparr>"

text \<open>The configuration above with every layer recurrent.\<close>

definition recurrent_config :: ModelArgs where
  "recurrent_config = demo_config\<lparr>block_types := Some [''recurrent'']\<rparr>"

chapter \<open>Verification\<close>

section \<open>The layers of the model and their caches\<close>

lemma build_layers_nth:
  "build_layers cfg is = Inr ls \<Longrightarrow>
     length ls = length is \<and> (\<forall>k < length is. make_layer cfg (is ! k) = Inr (ls ! k))"
proof (induction "is" arbitrary: ls)
  case Nil
  then show ?case by simp
next
  case (Cons i "is")
  from Cons.prems obtain b bs where b: "make_layer cfg i = Inr b"
    and bs: "build_layers cfg is = Inr bs" and ls: "ls = b # bs"
    by (auto split: sum.splits)
  from Cons.IH [OF bs] have len: "length bs = length is"
    and nth: "\<forall>k < length is. make_layer cfg (is ! k) = Inr (bs ! k)" by simp_all
  show ?case
  proof (intro conjI allI impI)
    show "length ls = length (i # is)" using len ls by simp
  next
    fix k assume "k < length (i # is)"
    then show "make_layer cfg ((i # is) ! k) = Inr (ls ! k)"
      using b nth ls by (cases k) simp_all
  qed
qed

lemma ResidualBlock_init_type:
  "ResidualBlock_init w mw h win tbt lw cw = Inr b \<Longrightarrow> temporal_block_type b = tbt"
  by (auto simp: ResidualBlock_init_def split: sum.splits if_splits)

lemma make_layer_type:
  "make_layer cfg i = Inr b \<Longrightarrow> block_types cfg = Some bts \<Longrightarrow> bts \<noteq> [] \<Longrightarrow>
     temporal_block_type b = bts ! (i mod length bts)"
  by (auto simp: make_layer_def layer_type_def dest: ResidualBlock_init_type split: sum.splits)

lemma Griffin_init_layers:
  assumes "Griffin_init cfg = Inr g"
  shows "build_layers cfg [0..<nat (num_hidden_layers cfg)] = Inr (layers g)"
  using assms by (auto simp: Griffin_init_def split: sum.splits)

text \<open>The construction goes through when the head count is not zero and does not
  exceed the width in absolute value (so that no quotient is zero).\<close>

lemma make_layer_succeeds:
  assumes "block_types cfg = Some bts" and "bts \<noteq> []"
    and "num_attention_heads cfg \<noteq> 0"
    and "hidden_size cfg div num_attention_heads cfg \<noteq> 0"
  shows "\<exists>b. make_layer cfg i = Inr b"
  using assms
  by (simp add: make_layer_def layer_type_def ResidualBlock_init_def RecurrentBlock_init_def
      RGLRU_init_def LocalAttentionBlock_init_def Let_def)

lemma build_layers_succeeds:
  assumes "\<And>i. \<exists>b. make_layer cfg i = Inr b"
  shows "\<exists>ls. build_layers cfg is = Inr ls"
proof (induction "is")
  case Nil
  show ?case by simp
next
  case (Cons i "is")
  from assms obtain b where "make_layer cfg i = Inr b" by blast
  moreover from Cons.IH obtain ls where "build_layers cfg is = Inr ls" by blast
  ultimately show ?case by simp
qed

lemma Griffin_init_succeeds:
  assumes "block_types cfg = Some bts" and "bts \<noteq> []"
    and "num_attention_heads cfg \<noteq> 0"
    and "hidden_size cfg div num_attention_heads cfg \<noteq> 0"
  shows "\<exists>g. Griffin_init cfg = Inr g"
proof -
  from build_layers_succeeds [of cfg, OF make_layer_succeeds [OF assms]]
  obtain ls where "build_layers cfg [0..<nat (num_hidden_layers cfg)] = Inr ls" by blast
  then show ?thesis by (simp add: Griffin_init_def)
qed

lemma demo_config_fields:
  "block_types demo_config = Some [''recurrent'', ''recurrent'', ''attention'']"
  "num_hidden_layers demo_config = 5"
  "num_attention_heads demo_config = 10"
  "hidden_size demo_config = 2560"
  "attention_window_size demo_config = 2048"
  by (simp_all add: demo_config_def post_init_def)

lemma demo_config_constructs: "\<exists>g. Griffin_init demo_config = Inr g"
  by (rule Griffin_init_succeeds [where bts = "[''recurrent'', ''recurrent'', ''attention'']"])
     (simp_all add: demo_config_fields)

lemma layer_types_of_init:
  assumes "block_types cfg = Some bts" and "bts \<noteq> []" and "Griffin_init cfg = Inr g"
  shows "length (layers g) = nat (num_hidden_layers cfg) \<and>
         (\<forall>i < nat (num_hidden_layers cfg).
            temporal_block_type (layers g ! i) = bts ! (i mod length bts))"
proof -
  let ?n = "nat (num_hidden_layers cfg)"
  note bl = Griffin_init_layers [OF assms(3)]
  from build_layers_nth [OF bl] have len: "length (layers g) = ?n"
    and nth: "\<forall>k < ?n. make_layer cfg k = Inr (layers g ! k)" by simp_all
  show ?thesis using len nth make_layer_type [OF _ assms(1,2)] by blast
qed

lemma demo_layer_types:
  assumes "Griffin_init demo_config = Inr g"
  shows "map temporal_block_type (layers g) =
           [''recurrent'', ''recurrent'', ''attention'', ''recurrent'', ''recurrent'']"
proof -
  have ne: "[''recurrent'', ''recurrent'', ''attention''] \<noteq> []" by simp
  from layer_types_of_init [OF demo_config_fields(1) ne assms]
  have len: "length (layers g) = 5"
    and nth: "\<And>i. i < 5 \<Longrightarrow> temporal_block_type (layers g ! i) =
           [''recurrent'', ''recurrent'', ''attention''] ! (i mod 3)"
    by (simp_all add: demo_config_fields)
  show ?thesis
  proof (rule nth_equalityI)
    show "length (map temporal_block_type (layers g)) =
          length [''recurrent'', ''recurrent'', ''attention'', ''recurrent'', ''recurrent'']"
      using len by simp
  next
    fix i assume "i < length (map temporal_block_type (layers g))"
    then have i: "i < 5" using len by simp
    then consider "i = 0" | "i = 1" | "i = 2" | "i = 3" | "i = 4" by linarith
    then show "map temporal_block_type (layers g) ! i =
          [''recurrent'', ''recurrent'', ''attention'', ''recurrent'', ''recurrent''] ! i"
    proof cases
      case 1 with nth [of 0] len show ?thesis by simp
    next
      case 2 with nth [of 1] len show ?thesis by simp
    next
      case 3 with nth [of 2] len show ?thesis by simp
    next
      case 4 with nth [of 3] len show ?thesis by simp
    next
      case 5 with nth [of 4] len show ?thesis by simp
    qed
  qed
qed




lemma make_cache_loop_map:
  "make_cache_loop m ls acc =
     acc @ map (\<lambda>l. if temporal_block_type l = ''recurrent'' then MambaCache
                     else RotatingKVCache (attention_window_size (args m))) ls"
  by (induction ls arbitrary: acc) simp_all

text \<open>
  Claim C4. For a model constructed from a configuration, \<open>make_cache\<close> returns one
  entry per layer, in the order of the layers: a \<open>MambaCache\<close> for a layer whose
  \<open>temporal_block_type\<close> is \<open>"recurrent"\<close>, and for every other layer a
  \<open>RotatingKVCache\<close> whose \<open>max_size\<close> is the configured \<open>attention_window_size\<close>.
\<close>

theorem make_cache_per_layer:
  assumes "Model_init cfg = Inr m"
  shows "length (make_cache m) = length (layers (model m)) \<and>
         length (layers (model m)) = nat (num_hidden_layers cfg) \<and>
         make_cache m =
           map (\<lambda>layer. if temporal_block_type layer = ''recurrent'' then MambaCache
                         else RotatingKVCache (attention_window_size cfg))
               (layers (model m))"
proof -
  from assms obtain g where g: "Griffin_init cfg = Inr g" and m: "m = \<lparr>args = cfg, model = g\<rparr>"
    by (auto simp: Model_init_def split: sum.splits)
  from build_layers_nth [OF Griffin_init_layers [OF g]]
  have "length (layers g) = nat (num_hidden_layers cfg)" by simp
  then show ?thesis by (simp add: m make_cache_def make_cache_loop_map)
qed

theorem make_cache_per_layer_witness:
  "\<exists>m. Model_init demo_config = Inr m \<and> length (make_cache m) = 5 \<and>
        make_cache m =
          [MambaCache, MambaCache, RotatingKVCache 2048, MambaCache, MambaCache]"
proof -
  from demo_config_constructs obtain g where g: "Griffin_init demo_config = Inr g" ..
  then have m: "Model_init demo_config = Inr \<lparr>args = demo_config, model = g\<rparr>"
    by (simp add: Model_init_def)
  have ne: "[''recurrent'', ''recurrent'', ''attention''] \<noteq> []" by simp
  note t = demo_layer_types [OF g]
  let ?f = "\<lambda>s. if s = ''recurrent'' then MambaCache
                else RotatingKVCache (attention_window_size demo_config)"
  have "map (\<lambda>layer. ?f (temporal_block_type layer)) (layers g)
          = map ?f (map temporal_block_type (layers g))"
    by simp
  also have "\<dots> = [MambaCache, MambaCache, RotatingKVCache 2048, MambaCache, MambaCache]"
    by (simp only: t) (simp add: demo_config_fields)
  finally have c: "map (\<lambda>layer. ?f (temporal_block_type layer)) (layers g) =
      [MambaCache, MambaCache, RotatingKVCache 2048, MambaCache, MambaCache]" .
  from make_cache_per_layer [OF m]
  have "make_cache \<lparr>args = demo_config, model = g\<rparr> =
          [MambaCache, MambaCache, RotatingKVCache 2048, MambaCache, MambaCache]"
    by (simp add: c)
  then have "length (make_cache \<lparr>args = demo_config, model = g\<rparr>) = 5 \<and>
      make_cache \<lparr>args = demo_config, model = g\<rparr> =
          [MambaCache, MambaCache, RotatingKVCache 2048, MambaCache, MambaCache]"
    by simp
  with m show ?thesis by blast
qed

section \<open>to\_samples\<close>

lemma concat_windows:
  "q * w \<le> length xs \<Longrightarrow>
     concat (map (\<lambda>i. take w (drop (i * w) xs)) [0..<q]) = take (q * w) xs"
proof (induction q)
  case 0
  then show ?case by simp
next
  case (Suc q)
  then have IH: "concat (map (\<lambda>i. take w (drop (i * w) xs)) [0..<q]) = take (q * w) xs"
    by simp
  have "Suc q * w = q * w + w" by simp
  then have "take (Suc q * w) xs = take (q * w) xs @ take w (drop (q * w) xs)"
    by (simp only: take_add)
  with IH show ?case by simp
qed

lemma window_of_prefix:
  assumes "i < q"
  shows "take w (drop (i * w) (take (q * w) xs)) = take w (drop (i * w) xs)"
proof -
  from assms have "Suc i \<le> q" by simp
  then have "Suc i * w \<le> q * w" by (rule mult_le_mono1)
  then have "w \<le> q * w - i * w" by simp
  then show ?thesis by (simp add: drop_take min_def)
qed

text \<open>
  Claim C6, amended. For every context size \<open>c \<ge> 0\<close> and every dataset of
  \<open>n \<ge> c + 1\<close> tokens, \<open>to_samples\<close> returns an array of shape
  \<open>(n div (c + 1), c + 1)\<close> whose row \<open>i\<close> is the window of \<open>c + 1\<close> tokens that
  starts at position \<open>i * (c + 1)\<close> of the dataset; the rows together are the dataset
  without its last \<open>n mod (c + 1)\<close> tokens.
\<close>

theorem to_samples_windows:
  fixes ds :: "'a list"
  assumes c: "0 \<le> c" and n: "nat c + 1 \<le> length ds"
  defines "w \<equiv> nat c + 1"
  defines "q \<equiv> length ds div w"
  shows "\<exists>A. to_samples c ds = Inr A \<and> shape2 A = (q, w) \<and> wf2 A \<and>
             rows2 A = map (\<lambda>i. take w (drop (i * w) ds)) [0..<q] \<and>
             concat (rows2 A) = take (length ds - length ds mod w) ds"
proof -
  have w: "0 < w" "int w = c + 1" using c by (simp_all add: w_def)
  have q: "0 < q" using n w by (simp add: q_def w_def div_greater_zero_iff)
  have qw: "q * w \<le> length ds" by (simp add: q_def)
  have samples: "py_floordiv (int (length ds)) (c + 1) = Inr (int q)"
    using w by (simp add: py_floordiv_def q_def zdiv_int flip: w(2))
  have sl: "slice_to (int q * (c + 1)) ds = take (q * w) ds"
    using w by (simp add: slice_to_def flip: w(2) of_nat_mult)
  have len: "length (take (q * w) ds) = q * w" using qw by simp
  let ?A = "\<lparr>shape2 = (q, w), rows2 = map (\<lambda>i. take w (drop (i * w) ds)) [0..<q]\<rparr>"
  have rows: "map (\<lambda>i. take w (drop (i * w) (take (q * w) ds))) [0..<q]
                = map (\<lambda>i. take w (drop (i * w) ds)) [0..<q]"
    by (rule map_cong) (simp_all add: window_of_prefix)
  have rs: "reshape_rows (int q) (take (q * w) ds) = Inr ?A"
    using q rows by (simp add: reshape_rows_def len Let_def del: length_take)
  have res: "to_samples c ds = Inr ?A"
    by (simp add: to_samples_def samples sl rs)
  have rowlen: "length (take w (drop (i * w) ds)) = w" if "i < q" for i
  proof -
    from that have "Suc i \<le> q" by simp
    then have "Suc i * w \<le> q * w" by (rule mult_le_mono1)
    with qw show ?thesis by simp
  qed
  have wf: "wf2 ?A"
    using rowlen by (simp add: wf2_def list_all_iff del: length_take length_drop)
  have "length ds - length ds mod w = q * w"
    by (simp add: q_def minus_mod_eq_div_mult)
  then have cc: "concat (rows2 ?A) = take (length ds - length ds mod w) ds"
    using concat_windows [OF qw] by simp
  show ?thesis using res wf cc by simp
qed

theorem to_samples_windows_witness:
  "\<exists>A. to_samples 2 [1, 2, 3, 4, 5, 6, 7, 8 :: int] = Inr A \<and> shape2 A = (2, 3) \<and> wf2 A \<and>
       rows2 A = [[1, 2, 3], [4, 5, 6]] \<and> concat (rows2 A) = [1, 2, 3, 4, 5, 6]"
proof -
  have "(0::int) \<le> 2" by simp
  moreover have "nat 2 + 1 \<le> length [1, 2, 3, 4, 5, 6, 7, 8 :: int]" by simp
  ultimately show ?thesis
    using to_samples_windows [of 2 "[1, 2, 3, 4, 5, 6, 7, 8 :: int]"]
    by (simp add: upt_conv_Cons)
qed

text \<open>With \<open>context_size = -1\<close> the window size is zero and the floor division
  raises: no array is returned. With a dataset of two tokens and \<open>context_size = 3\<close>
  the row count is zero, the slice is empty, and \<open>reshape(0, -1)\<close> has nothing to infer
  the row length 4 from: no array of shape \<open>(0, 4)\<close> is returned.\<close>

theorem to_samples_zero_window_counterexample:
  "to_samples (- 1) [1, 2, 3 :: int] = Inl ZeroDivisionError \<and>
   to_samples 3 [1, 2 :: int] = Inl FrameworkError"
  by (simp add: to_samples_def py_floordiv_def reshape_rows_def slice_to_def)

text \<open>Every dataset shorter than one window ends so.\<close>

lemma to_samples_short_dataset:
  "0 \<le> c \<Longrightarrow> length ds < nat c + 1 \<Longrightarrow> to_samples c ds = Inl FrameworkError"
  by (simp add: to_samples_def py_floordiv_def reshape_rows_def div_pos_pos_trivial)

section \<open>The training loop\<close>

lemma min_warmup:
  fixes it w :: int and rate :: real
  assumes "0 < w"
  shows "min 1 (real_of_int it / real_of_int w) * rate =
           (if it < w then real_of_int it / real_of_int w * rate else rate)"
proof (cases "it < w")
  case True
  with assms have "real_of_int it / real_of_int w < 1" by simp
  with True show ?thesis by (simp add: min_def)
next
  case False
  with assms have "1 \<le> real_of_int it / real_of_int w" by simp
  with False show ?thesis by (simp add: min_def)
qed

lemma and_then_fst: "fst (and_then p q) = (if snd p = None then fst p @ fst q else fst p)"
  by (cases p; cases q; cases "snd p") auto

lemma and_then_snd: "snd (and_then p q) = (if snd p = None then snd q else snd p)"
  by (cases p; cases q; cases "snd p") auto

text \<open>
  Claim C9, amended. When \<open>lr_warmup > 0\<close>, the body of the loop for iteration \<open>it\<close>
  first sets the learning rate to \<open>min(1, it / lr_warmup) * learning_rate\<close> and then
  takes gradient step \<open>it\<close>. That rate is \<open>(it / lr_warmup) * learning_rate\<close> while
  \<open>it < lr_warmup\<close>, a linear ramp that starts at 0, and is \<open>learning_rate\<close> from
  \<open>it = lr_warmup\<close> on.
\<close>

theorem learning_rate_warmup:
  assumes "0 < lr_warmup a"
  shows "warmup_rate it (lr_warmup a) (learning_rate a) =
           Inr (min 1 (real_of_int it / real_of_int (lr_warmup a)) * learning_rate a) \<and>
         min 1 (real_of_int it / real_of_int (lr_warmup a)) * learning_rate a =
           (if it < lr_warmup a
            then real_of_int it / real_of_int (lr_warmup a) * learning_rate a
            else learning_rate a) \<and>
         (\<exists>rest r. iteration a env it =
            (Set_learning_rate
               (min 1 (real_of_int it / real_of_int (lr_warmup a)) * learning_rate a)
             # Step it # rest, r))"
proof (intro conjI)
  let ?lr = "min 1 (real_of_int it / real_of_int (lr_warmup a)) * learning_rate a"
  show w: "warmup_rate it (lr_warmup a) (learning_rate a) = Inr ?lr"
    using assms by (simp add: warmup_rate_def)
  show "?lr = (if it < lr_warmup a
            then real_of_int it / real_of_int (lr_warmup a) * learning_rate a
            else learning_rate a)"
    using assms by (rule min_warmup)
  obtain rest r where q: "and_then (report a env it)
          (and_then (validate a env it) (save_checkpoint a it)) = (rest, r)"
    by (cases "and_then (report a env it)
          (and_then (validate a env it) (save_checkpoint a it))")
  have "iteration a env it = (Set_learning_rate ?lr # Step it # rest, r)"
    by (simp add: iteration_def set_rate_and_step_def w q)
  then show "\<exists>rest r. iteration a env it = (Set_learning_rate ?lr # Step it # rest, r)"
    by blast
qed

theorem learning_rate_warmup_witness:
  "warmup_rate 0 4 (3 / 10000) = Inr 0 \<and>
   warmup_rate 1 4 (3 / 10000) = Inr (3 / 40000) \<and>
   warmup_rate 9 4 (3 / 10000) = Inr (3 / 10000) \<and>
   (\<exists>rest r. iteration demo_args demo_env 1 =
      (Set_learning_rate (3 / 40000) # Step 1 # rest, r))"
proof -
  have h: "0 < lr_warmup demo_args" by (simp add: demo_args_def)
  show ?thesis
    using learning_rate_warmup [OF h, of 0 demo_env] learning_rate_warmup [OF h, of 1 demo_env]
      learning_rate_warmup [OF h, of 9 demo_env]
    by (simp add: demo_args_def)
qed

text \<open>With \<open>lr_warmup = 0\<close> the division raises in iteration 0: no rate is set and no
  step is taken. With \<open>lr_warmup = -4\<close> the rate set before step 2 is negative,
  although \<open>2 \<ge> lr_warmup\<close>.\<close>

theorem learning_rate_warmup_counterexample:
  "iteration (demo_args\<lparr>lr_warmup := 0\<rparr>) demo_env 0 = ([], Some ZeroDivisionError) \<and>
   warmup_rate 2 (- 4) (3 / 10000) = Inr (- (3 / 20000))"
  by (simp add: iteration_def set_rate_and_step_def warmup_rate_def demo_args_def)

subsection \<open>Steps and checkpoints\<close>

lemma steps_and_saves_append:
  "steps_and_saves (xs @ ys) = steps_and_saves xs @ steps_and_saves ys"
  by (simp add: steps_and_saves_def)

text \<open>The four parts of the loop body: which steps and saves they contribute, and that
  they contribute all of theirs when they do not raise.\<close>

lemma set_rate_and_step_trace:
  "steps_and_saves (fst (set_rate_and_step a it)) =
     (if snd (set_rate_and_step a it) = None then [Step it] else [])"
  by (simp add: set_rate_and_step_def steps_and_saves_def split: sum.splits)

lemma report_trace: "steps_and_saves (fst (report a env it)) = []"
  by (simp add: report_def steps_and_saves_def split: sum.splits)

lemma validate_trace: "steps_and_saves (fst (validate a env it)) = []"
  by (simp add: validate_def steps_and_saves_def split: sum.splits option.splits)

lemma save_checkpoint_trace:
  "snd (save_checkpoint a it) = None"
  "Step it # steps_and_saves (fst (save_checkpoint a it)) = step_and_save a it"
  by (simp_all add: save_checkpoint_def steps_and_saves_def step_and_save_def
      mod_eq_0_iff_dvd)

lemma iteration_trace:
  "\<exists>rest. step_and_save a it = steps_and_saves (fst (iteration a env it)) @ rest \<and>
          (snd (iteration a env it) = None \<longrightarrow> rest = [])"
proof (cases "snd (set_rate_and_step a it)")
  case (Some e)
  then have "steps_and_saves (fst (iteration a env it)) = []"
    using set_rate_and_step_trace [of a it] by (simp add: iteration_def and_then_fst)
  moreover from Some have "snd (iteration a env it) = Some e"
    by (simp add: iteration_def and_then_snd)
  ultimately show ?thesis by simp
next
  case step: None
  then have s: "steps_and_saves (fst (set_rate_and_step a it)) = [Step it]"
    using set_rate_and_step_trace [of a it] by simp
  show ?thesis
  proof (cases "snd (report a env it)")
    case (Some e)
    with step have "steps_and_saves (fst (iteration a env it)) = [Step it]"
      by (simp add: iteration_def and_then_fst steps_and_saves_append s report_trace)
    moreover from step Some have "snd (iteration a env it) = Some e"
      by (simp add: iteration_def and_then_snd)
    ultimately show ?thesis by (simp add: step_and_save_def)
  next
    case rep: None
    show ?thesis
    proof (cases "snd (validate a env it)")
      case (Some e)
      with step rep have "steps_and_saves (fst (iteration a env it)) = [Step it]"
        by (simp add: iteration_def and_then_fst and_then_snd steps_and_saves_append s
            report_trace validate_trace)
      moreover from step rep Some have "snd (iteration a env it) = Some e"
        by (simp add: iteration_def and_then_snd)
      ultimately show ?thesis by (simp add: step_and_save_def)
    next
      case None
      with step rep
      have "steps_and_saves (fst (iteration a env it)) =
              Step it # steps_and_saves (fst (save_checkpoint a it))"
        by (simp add: iteration_def and_then_fst and_then_snd steps_and_saves_append s
            report_trace validate_trace save_checkpoint_trace(1))
      then show ?thesis by (simp add: save_checkpoint_trace(2))
    qed
  qed
qed

lemma train_loop_trace:
  "\<exists>rest. concat (map (step_and_save a) its) =
            steps_and_saves (fst (train_loop a env its)) @ rest \<and>
          (snd (train_loop a env its) = None \<longrightarrow> rest = [])"
proof (induction its)
  case Nil
  have "steps_and_saves (fst (train_loop a env [])) = []" by (simp add: steps_and_saves_def)
  then show ?case by (intro exI [of _ "[]"]) simp
next
  case (Cons it its)
  obtain r1
    where r1: "step_and_save a it = steps_and_saves (fst (iteration a env it)) @ r1"
      and e1: "snd (iteration a env it) = None \<longrightarrow> r1 = []"
    by atomize_elim (rule iteration_trace)
  obtain r2
    where r2: "concat (map (step_and_save a) its) =
                 steps_and_saves (fst (train_loop a env its)) @ r2"
      and e2: "snd (train_loop a env its) = None \<longrightarrow> r2 = []"
    by atomize_elim (rule Cons.IH)
  have c: "concat (map (step_and_save a) (it # its)) =
             step_and_save a it @ concat (map (step_and_save a) its)"
    by simp
  show ?case
  proof (cases "snd (iteration a env it)")
    case None
    have f: "fst (train_loop a env (it # its)) =
               fst (iteration a env it) @ fst (train_loop a env its)"
      using None by (simp add: and_then_fst)
    have n: "snd (train_loop a env (it # its)) = snd (train_loop a env its)"
      using None by (simp add: and_then_snd)
    from e1 None have "r1 = []" by simp
    with r1 have "step_and_save a it = steps_and_saves (fst (iteration a env it))" by simp
    then have "step_and_save a it @ concat (map (step_and_save a) its) =
                 steps_and_saves (fst (iteration a env it))
                 @ steps_and_saves (fst (train_loop a env its)) @ r2"
      by (simp only: r2)
    then have "concat (map (step_and_save a) (it # its)) =
            steps_and_saves (fst (train_loop a env (it # its))) @ r2"
      by (simp only: c f steps_and_saves_append append_assoc)
    with e2 show ?thesis by (intro exI [of _ r2]) (simp only: n simp_thms)
  next
    case (Some e)
    have f: "fst (train_loop a env (it # its)) = fst (iteration a env it)"
      using Some by (simp add: and_then_fst)
    have n: "snd (train_loop a env (it # its)) = Some e"
      using Some by (simp add: and_then_snd)
    have "concat (map (step_and_save a) (it # its)) =
            steps_and_saves (fst (train_loop a env (it # its)))
            @ (r1 @ concat (map (step_and_save a) its))"
      by (simp only: c f r1 append_assoc)
    then show ?thesis
      by (intro exI [of _ "r1 @ concat (map (step_and_save a) its)"])
        (simp only: n simp_thms option.distinct)
  qed
qed

lemma training_trace:
  "\<exists>rest. concat (map (step_and_save a) (py_range (num_iters a))) =
            steps_and_saves (fst (training a env)) @ rest \<and>
          (snd (training a env) = None \<longrightarrow> rest = [])"
proof (cases "py_range (num_iters a)")
  case Nil
  then show ?thesis by (simp add: training_def steps_and_saves_def)
next
  case (Cons it its)
  show ?thesis
  proof (cases "iterate_batches (batch_size a) (context_size a) (dataset_tokens env)")
    case (Inl e)
    with Cons show ?thesis by (simp add: training_def steps_and_saves_def)
  next
    case (Inr inputs)
    with Cons have "training a env = train_loop a env (py_range (num_iters a))"
      by (simp add: training_def)
    with train_loop_trace [of a "py_range (num_iters a)" env] show ?thesis by simp
  qed
qed

lemma test_eval_trace: "steps_and_saves (fst (test_eval a env)) = []"
  by (simp add: test_eval_def steps_and_saves_def split: option.splits)

lemma no_checkpoint_due:
  "save_every a = 0 \<Longrightarrow> concat (map (step_and_save a) its) = map Step its"
  by (induction its) (simp_all add: step_and_save_def)

text \<open>
  Claim C10, amended. In every run, the gradient steps and the checkpoint files written
  are an initial part of this sequence: for each \<open>it\<close> of \<open>range(num_iters)\<close> step
  \<open>it\<close>, followed by \<open>checkpoint_{it+1:06d}.safetensors\<close> under \<open>save_path\<close> exactly when
  \<open>save_every > 0\<close> and \<open>save_every\<close> divides \<open>it + 1\<close>; and after the last iteration
  \<open>final.safetensors\<close>. A run whose training loop ends without an exception writes the
  whole sequence, \<open>final.safetensors\<close> included. With \<open>save_every = 0\<close> the sequence has
  no checkpoint but \<open>final.safetensors\<close>.
\<close>

theorem checkpoints_written:
  "(\<exists>rest. concat (map (step_and_save a) (py_range (num_iters a)))
            @ [Save_safetensors (save_path a) ''final.safetensors'']
          = steps_and_saves (fst (main a env)) @ rest) \<and>
   (snd (training a env) = None \<longrightarrow>
      steps_and_saves (fst (main a env)) =
        concat (map (step_and_save a) (py_range (num_iters a)))
        @ [Save_safetensors (save_path a) ''final.safetensors'']) \<and>
   (save_every a = 0 \<longrightarrow>
      concat (map (step_and_save a) (py_range (num_iters a)))
        @ [Save_safetensors (save_path a) ''final.safetensors'']
      = map Step (py_range (num_iters a))
        @ [Save_safetensors (save_path a) ''final.safetensors''])"
proof (intro conjI impI)
  let ?fin = "Save_safetensors (save_path a) ''final.safetensors''"
  let ?loop = "concat (map (step_and_save a) (py_range (num_iters a)))"
  obtain rest
    where rest: "?loop = steps_and_saves (fst (training a env)) @ rest"
      "snd (training a env) = None \<longrightarrow> rest = []"
    by atomize_elim (rule training_trace)
  have fin: "steps_and_saves (?fin # fst (test_eval a env)) = [?fin]"
    using test_eval_trace [of a env] by (simp add: steps_and_saves_def)
  have whole: "steps_and_saves (fst (main a env)) = ?loop @ [?fin]"
    if "snd (training a env) = None"
    using that rest
    by (simp add: main_def and_then_fst and_then_snd steps_and_saves_append fin
        test_eval_trace)
  show "\<exists>rest. ?loop @ [?fin] = steps_and_saves (fst (main a env)) @ rest"
  proof (cases "snd (training a env)")
    case None
    from whole [OF None] show ?thesis by simp
  next
    case (Some e)
    then have "steps_and_saves (fst (main a env)) = steps_and_saves (fst (training a env))"
      by (simp add: main_def and_then_fst)
    with rest(1) show ?thesis by simp
  qed
  show "steps_and_saves (fst (main a env)) = ?loop @ [?fin]"
    if "snd (training a env) = None"
    using that by (rule whole)
  show "?loop @ [?fin] = map Step (py_range (num_iters a)) @ [?fin]" if "save_every a = 0"
    using that by (simp add: no_checkpoint_due)
qed

lemma demo_run:
  "main demo_args demo_env =
     ([Set_learning_rate 0, Step 0, Set_learning_rate (3 / 40000), Step 1, Report 2,
       Save_safetensors ''out'' ''checkpoint_000002.safetensors'',
       Set_learning_rate (3 / 20000), Step 2, Validate 3,
       Set_learning_rate (9 / 40000), Step 3, Report 4,
       Save_safetensors ''out'' ''checkpoint_000004.safetensors'',
       Save_safetensors ''out'' ''final.safetensors''], None)"
  by code_simp

lemma demo_training_ends: "snd (training demo_args demo_env) = None"
  by code_simp

theorem checkpoints_written_witness:
  "snd (training demo_args demo_env) = None \<and>
   steps_and_saves (fst (main demo_args demo_env)) =
     [Step 0, Step 1, Save_safetensors ''out'' ''checkpoint_000002.safetensors'',
      Step 2, Step 3, Save_safetensors ''out'' ''checkpoint_000004.safetensors'',
      Save_safetensors ''out'' ''final.safetensors'']"
proof -
  have r: "py_range (num_iters demo_args) = [0, 1, 2, 3]"
    by (simp add: py_range_def demo_args_def upt_conv_Cons)
  have s: "save_path demo_args = ''out''" "save_every demo_args = 2"
    by (simp_all add: demo_args_def)
  have n: "checkpoint_name 2 = ''checkpoint_000002.safetensors''"
    "checkpoint_name 4 = ''checkpoint_000004.safetensors''"
    by (simp_all add: checkpoint_name_def fmt_06d_def zfill_def eval_nat_numeral)
  from checkpoints_written [of demo_args demo_env] demo_training_ends
  have "steps_and_saves (fst (main demo_args demo_env)) =
          concat (map (step_and_save demo_args) (py_range (num_iters demo_args)))
          @ [Save_safetensors (save_path demo_args) ''final.safetensors'']"
    by blast
  then show ?thesis using demo_training_ends by (simp add: r s n step_and_save_def)
qed

text \<open>
  With \<open>steps_per_report = 0\<close> the run ends in iteration 0, after the gradient step and
  before the save: with \<open>save_every = 1\<close> neither \<open>checkpoint_000001.safetensors\<close> nor
  \<open>final.safetensors\<close> is written. With \<open>context_size = -1\<close> the first batch raises in
  \<open>to_samples\<close> and nothing is written at all.
\<close>

theorem checkpoints_written_counterexample:
  "main (demo_args\<lparr>steps_per_report := 0, save_every := 1, num_iters := 1\<rparr>) demo_env =
     ([Set_learning_rate 0, Step 0], Some ZeroDivisionError) \<and>
   main (demo_args\<lparr>context_size := - 1\<rparr>) demo_env = ([], Some ZeroDivisionError)"
  by code_simp

text \<open>Conditions under which the training loop ends without an exception.\<close>

lemma iteration_completes:
  assumes "lr_warmup a \<noteq> 0" and "steps_per_report a \<noteq> 0" and "steps_per_eval a \<noteq> 0"
    and "\<And>it. elapsed env it \<noteq> 0" and "\<And>it. \<not> ppl_overflow env it"
    and "eval_fn a (valid_split (dataset_tokens env)) = None"
  shows "snd (iteration a env it) = None"
  using assms
  by (simp add: iteration_def and_then_snd set_rate_and_step_def warmup_rate_def report_def
      validate_def save_checkpoint_def py_mod_def)

lemma training_completes:
  assumes "lr_warmup a \<noteq> 0" and "steps_per_report a \<noteq> 0" and "steps_per_eval a \<noteq> 0"
    and "\<And>it. elapsed env it \<noteq> 0" and "\<And>it. \<not> ppl_overflow env it"
    and "eval_fn a (valid_split (dataset_tokens env)) = None"
    and "to_samples (context_size a) (dataset_tokens env) = Inr inputs"
  shows "snd (training a env) = None"
proof -
  have loop: "snd (train_loop a env its) = None" for its
    by (induction its) (simp_all add: and_then_snd iteration_completes [OF assms(1-6)])
  have "training a env = train_loop a env (py_range (num_iters a))"
    by (cases "py_range (num_iters a)") (simp_all add: training_def iterate_batches_def assms(7))
  then show ?thesis by (simp add: loop)
qed

section \<open>Arrays: shape, entries, equality\<close>

lemma wf3_lengths:
  assumes "wf3 x" and "shape3 x = (B, L, D)"
  shows "length (vals3 x) = B"
    and "b < B \<Longrightarrow> length (vals3 x ! b) = L"
    and "b < B \<Longrightarrow> t < L \<Longrightarrow> length (vals3 x ! b ! t) = D"
  using assms by (auto simp: wf3_def list_all_length)

lemma wf3I:
  assumes "shape3 x = (B, L, D)" and "length (vals3 x) = B"
    and "\<And>b. b < B \<Longrightarrow> length (vals3 x ! b) = L"
    and "\<And>b t. b < B \<Longrightarrow> t < L \<Longrightarrow> length (vals3 x ! b ! t) = D"
  shows "wf3 x"
  using assms by (auto simp: wf3_def list_all_length)

lemma wf2_lengths:
  assumes "wf2 h" and "shape2 h = (B, D)"
  shows "length (rows2 h) = B" and "b < B \<Longrightarrow> length (rows2 h ! b) = D"
  using assms by (auto simp: wf2_def list_all_length)

lemma wf2I:
  assumes "shape2 h = (B, D)" and "length (rows2 h) = B"
    and "\<And>b. b < B \<Longrightarrow> length (rows2 h ! b) = D"
  shows "wf2 h"
  using assms by (auto simp: wf2_def list_all_length)

lemma array2_eqI:
  fixes p q :: "'a array2"
  assumes p: "wf2 p" "shape2 p = (B, D)" and q: "wf2 q" "shape2 q = (B, D)"
    and el: "\<And>b d. b < B \<Longrightarrow> d < D \<Longrightarrow> el2 p b d = el2 q b d"
  shows "p = q"
proof -
  note lp = wf2_lengths [OF p] and lq = wf2_lengths [OF q]
  have "rows2 p = rows2 q"
  proof (rule nth_equalityI)
    show "length (rows2 p) = length (rows2 q)" using lp(1) lq(1) by simp
  next
    fix b assume "b < length (rows2 p)"
    then have b: "b < B" using lp(1) by simp
    show "rows2 p ! b = rows2 q ! b"
    proof (rule nth_equalityI)
      show "length (rows2 p ! b) = length (rows2 q ! b)" using lp(2) lq(2) b by simp
    next
      fix d assume "d < length (rows2 p ! b)"
      then have "d < D" using lp(2) b by simp
      with el [OF b] show "rows2 p ! b ! d = rows2 q ! b ! d" by (simp add: el2_def)
    qed
  qed
  with p(2) q(2) show ?thesis by simp
qed

lemma array3_eqI:
  fixes p q :: "'a array3"
  assumes p: "wf3 p" "shape3 p = (B, L, D)" and q: "wf3 q" "shape3 q = (B, L, D)"
    and el: "\<And>b t d. b < B \<Longrightarrow> t < L \<Longrightarrow> d < D \<Longrightarrow> el3 p b t d = el3 q b t d"
  shows "p = q"
proof -
  note lp = wf3_lengths [OF p] and lq = wf3_lengths [OF q]
  have "vals3 p = vals3 q"
  proof (rule nth_equalityI)
    show "length (vals3 p) = length (vals3 q)" using lp(1) lq(1) by simp
  next
    fix b assume "b < length (vals3 p)"
    then have b: "b < B" using lp(1) by simp
    show "vals3 p ! b = vals3 q ! b"
    proof (rule nth_equalityI)
      show "length (vals3 p ! b) = length (vals3 q ! b)" using lp(2) lq(2) b by simp
    next
      fix t assume "t < length (vals3 p ! b)"
      then have t: "t < L" using lp(2) b by simp
      show "vals3 p ! b ! t = vals3 q ! b ! t"
      proof (rule nth_equalityI)
        show "length (vals3 p ! b ! t) = length (vals3 q ! b ! t)"
          using lp(3) lq(3) b t by simp
      next
        fix d assume "d < length (vals3 p ! b ! t)"
        then have "d < D" using lp(3) b t by simp
        with el [OF b t] show "vals3 p ! b ! t ! d = vals3 q ! b ! t ! d"
          by (simp add: el3_def)
      qed
    qed
  qed
  with p(2) q(2) show ?thesis by simp
qed

section \<open>The array operations on well-formed operands\<close>

lemma axis_index_nat: "t < n \<Longrightarrow> axis_index (int t) n = Inr t"
  by (simp add: axis_index_def)

lemma axis_index_last: "0 < n \<Longrightarrow> axis_index (- 1) n = Inr (n - 1)"
  by (simp add: axis_index_def Let_def nat_diff_distrib' of_nat_diff)

lemma frame_ok:
  assumes "wf3 x" and "shape3 x = (B, L, D)" and "t < L"
  obtains f where "frame x (int t) = Inr f" and "wf2 f" and "shape2 f = (B, D)"
    and "\<And>b d. b < B \<Longrightarrow> d < D \<Longrightarrow> el2 f b d = el3 x b t d"
proof
  let ?f = "\<lparr>shape2 = (B, D), rows2 = map (\<lambda>r. r ! t) (vals3 x)\<rparr>"
  note l = wf3_lengths [OF assms(1,2)]
  show "frame x (int t) = Inr ?f"
    using assms(2,3) by (simp add: frame_def axis_index_nat)
  show "wf2 ?f" using l assms(3) by (intro wf2I [of _ B D]) simp_all
  show "shape2 ?f = (B, D)" by simp
  show "el2 ?f b d = el3 x b t d" if "b < B" "d < D" for b d
    using that l(1) by (simp add: el2_def el3_def)
qed

lemma zip_with_ok:
  fixes f :: "'a \<Rightarrow> 'a \<Rightarrow> 'a"
  assumes "wf2 p" and "shape2 p = (B, D)" and "wf2 q" and "shape2 q = (B, D)"
  defines "r \<equiv> \<lparr>shape2 = (B, D), rows2 = map2 (map2 f) (rows2 p) (rows2 q)\<rparr>"
  shows "wf2 r" and "shape2 r = (B, D)"
    and "\<And>b d. b < B \<Longrightarrow> d < D \<Longrightarrow> el2 r b d = f (el2 p b d) (el2 q b d)"
proof -
  note lp = wf2_lengths [OF assms(1,2)] and lq = wf2_lengths [OF assms(3,4)]
  show "wf2 r" unfolding r_def using lp lq by (intro wf2I [of _ B D]) simp_all
  show "shape2 r = (B, D)" by (simp add: r_def)
  show "el2 r b d = f (el2 p b d) (el2 q b d)" if "b < B" "d < D" for b d
    using that lp lq by (simp add: el2_def r_def)
qed

lemma mul2_ok:
  fixes p q :: "'a::times array2"
  assumes "wf2 p" and "shape2 p = (B, D)" and "wf2 q" and "shape2 q = (B, D)"
  obtains r where "mul2 p q = Inr r" and "wf2 r" and "shape2 r = (B, D)"
    and "\<And>b d. b < B \<Longrightarrow> d < D \<Longrightarrow> el2 r b d = el2 p b d * el2 q b d"
proof
  show "mul2 p q = Inr \<lparr>shape2 = (B, D), rows2 = map2 (map2 (*)) (rows2 p) (rows2 q)\<rparr>"
    using assms(2,4) by (simp add: mul2_def)
qed (rule zip_with_ok [OF assms]; assumption)+

lemma add2_ok:
  fixes p q :: "'a::plus array2"
  assumes "wf2 p" and "shape2 p = (B, D)" and "wf2 q" and "shape2 q = (B, D)"
  obtains r where "add2 p q = Inr r" and "wf2 r" and "shape2 r = (B, D)"
    and "\<And>b d. b < B \<Longrightarrow> d < D \<Longrightarrow> el2 r b d = el2 p b d + el2 q b d"
proof
  show "add2 p q = Inr \<lparr>shape2 = (B, D), rows2 = map2 (map2 (+)) (rows2 p) (rows2 q)\<rparr>"
    using assms(2,4) by (simp add: add2_def)
qed (rule zip_with_ok [OF assms]; assumption)+

lemma set_frame_ok:
  assumes "wf3 y" and "shape3 y = (B, L, D)" and "t < L"
    and "wf2 h" and "shape2 h = (B, D)"
  obtains y' where "set_frame y (int t) h = Inr y'" and "wf3 y'" and "shape3 y' = (B, L, D)"
    and "\<And>b s d. b < B \<Longrightarrow> s < L \<Longrightarrow> d < D \<Longrightarrow>
           el3 y' b s d = (if s = t then el2 h b d else el3 y b s d)"
proof
  let ?y = "y\<lparr>vals3 := map2 (\<lambda>r v. r[t := v]) (vals3 y) (rows2 h)\<rparr>"
  note ly = wf3_lengths [OF assms(1,2)] and lh = wf2_lengths [OF assms(4,5)]
  show "set_frame y (int t) h = Inr ?y"
    using assms(2,3,5) by (simp add: set_frame_def axis_index_nat)
  show s: "shape3 ?y = (B, L, D)" using assms(2) by simp
  show "wf3 ?y"
  proof (rule wf3I [OF s])
    show "length (vals3 ?y) = B" using ly(1) lh(1) by simp
    show "length (vals3 ?y ! b) = L" if "b < B" for b
      using that ly lh by simp
    show "length (vals3 ?y ! b ! s) = D" if "b < B" "s < L" for b s
      using that ly lh assms(3) by (cases "s = t") simp_all
  qed
  show "el3 ?y b s d = (if s = t then el2 h b d else el3 y b s d)"
    if "b < B" "s < L" "d < D" for b s d
    using that ly lh assms(3) by (cases "s = t") (simp_all add: el3_def el2_def)
qed

section \<open>The two branches of rnn\_scan\<close>

lemma zeros2_ok:
  shows "wf2 (zeros2 (B, D))" and "shape2 (zeros2 (B, D)) = (B, D)"
    and "b < B \<Longrightarrow> d < D \<Longrightarrow> el2 (zeros2 (B, D)) b d = 0"
  by (simp_all add: zeros2_def wf2_def list_all_length el2_def)

lemma zeros_like_ok:
  assumes "shape3 x = (B, L, D)"
  shows "wf3 (zeros_like x)" and "shape3 (zeros_like x) = (B, L, D)"
  using assms by (simp_all add: zeros_like_def wf3_def list_all_length)

text \<open>
  The loop, started at step \<open>k\<close> with state \<open>h\<close> and output buffer \<open>y\<close>: it returns,
  it leaves the frames before \<open>k\<close> as they are, every later frame is the recurrence step
  from the frame before it (from \<open>h\<close> at \<open>k\<close>), and the state it returns is the last
  frame.
\<close>

lemma scan_loop_ok:
  fixes x a :: "'a::{zero,plus,times} array3"
  assumes x: "wf3 x" "shape3 x = (B, L, D)" and a: "wf3 a" "shape3 a = (B, L, D)"
  shows "k \<le> L \<Longrightarrow> wf3 y \<Longrightarrow> shape3 y = (B, L, D) \<Longrightarrow> wf2 h \<Longrightarrow> shape2 h = (B, D) \<Longrightarrow>
    \<exists>y' h'. scan_loop [k..<L] x a h y = Inr (y', h') \<and>
       wf3 y' \<and> shape3 y' = (B, L, D) \<and> wf2 h' \<and> shape2 h' = (B, D) \<and>
       (\<forall>b<B. \<forall>d<D.
          (\<forall>t<L. el3 y' b t d =
             (if t < k then el3 y b t d
              else el3 a b t d * (if t = k then el2 h b d else el3 y' b (t - 1) d)
                   + el3 x b t d)) \<and>
          el2 h' b d = (if k = L then el2 h b d else el3 y' b (L - 1) d))"
proof (induction "L - k" arbitrary: k h y)
  case 0
  then have "k = L" by simp
  with 0 show ?case by simp
next
  case (Suc n)
  then have k: "k < L" and n: "n = L - Suc k" and k': "Suc k \<le> L" by simp_all
  from frame_ok [OF a k] obtain a_t where a_t: "frame a (int k) = Inr a_t"
    "wf2 a_t" "shape2 a_t = (B, D)"
    "\<And>b d. b < B \<Longrightarrow> d < D \<Longrightarrow> el2 a_t b d = el3 a b k d" by blast
  from mul2_ok [OF a_t(2,3) Suc.prems(4,5)] obtain m where m: "mul2 a_t h = Inr m"
    "wf2 m" "shape2 m = (B, D)"
    "\<And>b d. b < B \<Longrightarrow> d < D \<Longrightarrow> el2 m b d = el2 a_t b d * el2 h b d" by blast
  from frame_ok [OF x k] obtain x_t where x_t: "frame x (int k) = Inr x_t"
    "wf2 x_t" "shape2 x_t = (B, D)"
    "\<And>b d. b < B \<Longrightarrow> d < D \<Longrightarrow> el2 x_t b d = el3 x b k d" by blast
  from add2_ok [OF m(2,3) x_t(2,3)] obtain h1 where h1: "add2 m x_t = Inr h1"
    "wf2 h1" "shape2 h1 = (B, D)"
    "\<And>b d. b < B \<Longrightarrow> d < D \<Longrightarrow> el2 h1 b d = el2 m b d + el2 x_t b d" by blast
  from set_frame_ok [OF Suc.prems(2,3) k h1(2,3)] obtain y1
    where y1: "set_frame y (int k) h1 = Inr y1" "wf3 y1" "shape3 y1 = (B, L, D)"
      "\<And>b s d. b < B \<Longrightarrow> s < L \<Longrightarrow> d < D \<Longrightarrow>
         el3 y1 b s d = (if s = k then el2 h1 b d else el3 y b s d)" by blast
  have h1_el: "el2 h1 b d = el3 a b k d * el2 h b d + el3 x b k d" if "b < B" "d < D" for b d
    using that by (simp add: h1(4) m(4) a_t(4) x_t(4))
  from Suc.hyps(1) [OF n k' y1(2,3) h1(2,3)] obtain y' h'
    where res: "scan_loop [Suc k..<L] x a h1 y1 = Inr (y', h')"
      and wf: "wf3 y'" "shape3 y' = (B, L, D)" "wf2 h'" "shape2 h' = (B, D)"
      and IH: "\<And>b d. b < B \<Longrightarrow> d < D \<Longrightarrow>
          (\<forall>t<L. el3 y' b t d =
             (if t < Suc k then el3 y1 b t d
              else el3 a b t d * (if t = Suc k then el2 h1 b d else el3 y' b (t - 1) d)
                   + el3 x b t d)) \<and>
          el2 h' b d = (if Suc k = L then el2 h1 b d else el3 y' b (L - 1) d)"
    by blast
  have run: "scan_loop [k..<L] x a h y = Inr (y', h')"
    using k by (simp add: upt_conv_Cons a_t(1) m(1) x_t(1) h1(1) y1(1) res)
  have post: "(\<forall>t<L. el3 y' b t d =
             (if t < k then el3 y b t d
              else el3 a b t d * (if t = k then el2 h b d else el3 y' b (t - 1) d)
                   + el3 x b t d)) \<and>
          el2 h' b d = (if k = L then el2 h b d else el3 y' b (L - 1) d)"
    if bd: "b < B" "d < D" for b d
  proof -
    note ih = IH [OF bd]
    have at_k: "el3 y' b k d = el2 h1 b d"
      using ih k y1(4) [OF bd(1) k bd(2)] by simp
    have frames: "el3 y' b t d =
             (if t < k then el3 y b t d
              else el3 a b t d * (if t = k then el2 h b d else el3 y' b (t - 1) d)
                   + el3 x b t d)" if t: "t < L" for t
    proof -
      consider "t < k" | "t = k" | "t = Suc k" | "Suc k < t" by linarith
      then show ?thesis
      proof cases
        case 1
        with ih t y1(4) [OF bd(1) t bd(2)] show ?thesis by simp
      next
        case 2
        with at_k h1_el [OF bd] show ?thesis by simp
      next
        case 3
        with ih t at_k show ?thesis by simp
      next
        case 4
        with ih t show ?thesis by simp
      qed
    qed
    have last: "el2 h' b d = (if k = L then el2 h b d else el3 y' b (L - 1) d)"
    proof (cases "Suc k = L")
      case True
      then have "L - 1 = k" by simp
      with ih True at_k k show ?thesis by simp
    next
      case False
      with ih k show ?thesis by simp
    qed
    from frames last show ?thesis by blast
  qed
  from run wf post show ?case by blast
qed

text \<open>What the claim asks of a result \<open>(y, h)\<close> for inputs of shape \<open>(B, L, D)\<close>.\<close>

lemma linear_mode_ok:
  fixes x a :: "'a::{zero,plus,times} array3"
  assumes x: "wf3 x" "shape3 x = (B, L, D)" and a: "wf3 a" "shape3 a = (B, L, D)"
    and h0: "case h0 of None \<Rightarrow> True | Some h \<Rightarrow> wf2 h \<and> shape2 h = (B, D)"
    and L: "1 \<le> L"
  shows "\<exists>y h. linear_mode x a h0 = Inr (y, h) \<and>
       wf3 y \<and> shape3 y = (B, L, D) \<and> wf2 h \<and> shape2 h = (B, D) \<and>
       (\<forall>b<B. \<forall>d<D.
          (\<forall>t<L. el3 y b t d =
             el3 a b t d * (if t = 0 then initial_state h0 b d else el3 y b (t - 1) d)
             + el3 x b t d) \<and>
          el2 h b d = el3 y b (L - 1) d)"
proof -
  define h_t where "h_t = (case h0 of Some h \<Rightarrow> h | None \<Rightarrow> zeros2 (B, D))"
  have h_t: "wf2 h_t" "shape2 h_t = (B, D)"
    using h0 by (auto simp: h_t_def zeros2_ok split: option.splits)
  have init: "el2 h_t b d = initial_state h0 b d" if "b < B" "d < D" for b d
    using that by (simp add: h_t_def initial_state_def zeros2_ok split: option.splits)
  have lm: "linear_mode x a h0 = scan_loop [0..<L] x a h_t (zeros_like x)"
    by (simp add: linear_mode_def x(2) h_t_def)
  from scan_loop_ok [OF x a, of 0 "zeros_like x" h_t] zeros_like_ok [OF x(2)] h_t
  obtain y h where res: "scan_loop [0..<L] x a h_t (zeros_like x) = Inr (y, h)"
    and wf: "wf3 y" "shape3 y = (B, L, D)" "wf2 h" "shape2 h = (B, D)"
    and post: "\<And>b d. b < B \<Longrightarrow> d < D \<Longrightarrow>
          (\<forall>t<L. el3 y b t d =
             (if t < 0 then el3 (zeros_like x) b t d
              else el3 a b t d * (if t = 0 then el2 h_t b d else el3 y b (t - 1) d)
                   + el3 x b t d)) \<and>
          el2 h b d = (if 0 = L then el2 h_t b d else el3 y b (L - 1) d)"
    by blast
  have "(\<forall>t<L. el3 y b t d =
             el3 a b t d * (if t = 0 then initial_state h0 b d else el3 y b (t - 1) d)
             + el3 x b t d) \<and>
          el2 h b d = el3 y b (L - 1) d" if bd: "b < B" "d < D" for b d
    using post [OF bd] init [OF bd] L by simp
  with lm res wf show ?thesis by auto
qed

lemma sampling_mode_ok:
  fixes x a :: "'a::{zero,plus,times} array3"
  assumes x: "wf3 x" "shape3 x = (B, 1, D)" and a: "wf3 a" "shape3 a = (B, 1, D)"
    and h0: "case h0 of None \<Rightarrow> True | Some h \<Rightarrow> wf2 h \<and> shape2 h = (B, D)"
    and absorb: "h0 = None \<Longrightarrow>
      \<forall>b<B. \<forall>d<D. el3 a b 0 d * 0 + el3 x b 0 d = el3 x b 0 d"
  shows "\<exists>y h. sampling_mode x a h0 = Inr (y, h) \<and>
       wf3 y \<and> shape3 y = (B, 1, D) \<and> wf2 h \<and> shape2 h = (B, D) \<and>
       (\<forall>b<B. \<forall>d<D.
          el3 y b 0 d = el3 a b 0 d * initial_state h0 b d + el3 x b 0 d \<and>
          el2 h b d = el3 y b 0 d)"
proof (cases h0)
  case None
  from frame_ok [OF x, of 0] obtain x0 where x0: "frame x 0 = Inr x0" "wf2 x0"
    "shape2 x0 = (B, D)" "\<And>b d. b < B \<Longrightarrow> d < D \<Longrightarrow> el2 x0 b d = el3 x b 0 d"
    by auto
  have "sampling_mode x a h0 = Inr (x, x0)" by (simp add: sampling_mode_def None x0(1))
  with x x0 None absorb [OF None] show ?thesis by (simp add: initial_state_def)
next
  case (Some h)
  with h0 have h: "wf2 h" "shape2 h = (B, D)" by simp_all
  note lh = wf2_lengths [OF h] and la = wf3_lengths [OF a] and lx = wf3_lengths [OF x]
  let ?e = "expand_axis1 h"
  have e: "shape3 ?e = (B, 1, D)" by (simp add: expand_axis1_def h(2))
  let ?ah = "\<lparr>shape3 = (B, 1, D), vals3 = map2 (map2 (map2 (*))) (vals3 a) (vals3 ?e)\<rparr>"
  have mul: "mul3 a ?e = Inr ?ah" by (simp add: mul3_def a(2) e)
  let ?y = "\<lparr>shape3 = (B, 1, D), vals3 = map2 (map2 (map2 (+))) (vals3 ?ah) (vals3 x)\<rparr>"
  have add: "add3 ?ah x = Inr ?y" by (simp add: add3_def x(2))
  have ve: "vals3 ?e = map (\<lambda>v. [v]) (rows2 h)" by (simp add: expand_axis1_def h(2))
  have sy: "shape3 ?y = (B, 1, D)" by simp
  have wy: "wf3 ?y"
  proof (rule wf3I [OF sy])
    show "length (vals3 ?y) = B" using la(1) lx(1) lh(1) by (simp add: ve)
    show "length (vals3 ?y ! b) = 1" if "b < B" for b
      using that la lx lh by (simp add: ve)
    show "length (vals3 ?y ! b ! t) = D" if "b < B" "t < 1" for b t
      using that la lx lh by (simp add: ve)
  qed
  have ely: "el3 ?y b 0 d = el3 a b 0 d * el2 h b d + el3 x b 0 d" if "b < B" "d < D" for b d
    using that la lx lh by (simp add: ve el3_def el2_def)
  have "frame ?y (- 1) = frame ?y (int 0)"
    by (simp add: frame_def axis_index_def)
  with frame_ok [OF wy sy, of 0] obtain yl where yl: "frame ?y (- 1) = Inr yl" "wf2 yl"
    "shape2 yl = (B, D)" "\<And>b d. b < B \<Longrightarrow> d < D \<Longrightarrow> el2 yl b d = el3 ?y b 0 d"
    by auto
  have "sampling_mode x a h0 = Inr (?y, yl)"
    by (simp only: sampling_mode_def Some option.case mul add yl(1) sum.case)
  with wy sy yl ely Some show ?thesis by (simp add: initial_state_def)
qed

text \<open>On \<open>fval\<close> a finite coefficient times zero is zero, and zero added to any value is
  that value: for finite coefficients the shortcut of the sampling branch agrees with the
  recurrence step from a zero state.\<close>

lemma fval_finite_absorb: "is_finite u \<Longrightarrow> u * 0 + v = v"
  by (cases u; cases v) (simp_all add: zero_fval_def)

lemma fval_absorb_array:
  fixes a :: "fval array3"
  assumes "wf3 a" and "shape3 a = (B, L, D)"
    and "list_all (list_all (list_all is_finite)) (vals3 a)" and "0 < L"
  shows "\<forall>b<B. \<forall>d<D. el3 a b 0 d * 0 + v b d = v b d"
proof (intro allI impI)
  fix b d assume b: "b < B" and d: "d < D"
  note l = wf3_lengths [OF assms(1,2)]
  from assms(3) b d l assms(4) have "is_finite (el3 a b 0 d)"
    by (simp add: list_all_length el3_def)
  then show "el3 a b 0 d * 0 + v b d = v b d" by (rule fval_finite_absorb)
qed

lemma demo_arrays_wf:
  "wf3 demo_x" "shape3 demo_x = (1, 3, 2)" "wf3 demo_a" "shape3 demo_a = (1, 3, 2)"
  "wf3 demo_x1" "shape3 demo_x1 = (1, 1, 2)" "wf3 demo_a1" "shape3 demo_a1 = (1, 1, 2)"
  "wf2 demo_h" "shape2 demo_h = (1, 2)"
  by (simp_all add: demo_x_def demo_a_def demo_x1_def demo_a1_def demo_h_def wf3_def wf2_def)

lemma fl_arrays_wf:
  "wf3 fl_x1" "shape3 fl_x1 = (1, 1, 2)" "wf3 fl_a1" "shape3 fl_a1 = (1, 1, 2)"
  "list_all (list_all (list_all is_finite)) (vals3 fl_a1)"
  by (simp_all add: fl_x1_def fl_a1_def wf3_def)

lemma fl_a1_absorb:
  "\<forall>b<1. \<forall>d<2. el3 fl_a1 b 0 d * 0 + el3 fl_x1 b 0 d = el3 fl_x1 b 0 d"
  by (rule fval_absorb_array [OF fl_arrays_wf(3,4,5)]) simp

text \<open>
  Claim C1, amended. For every input \<open>x\<close> of shape \<open>(B, L, D)\<close> with \<open>L \<ge> 1\<close>, every
  coefficient array \<open>a\<close> of the same shape and entry type, and every initial state
  \<open>h0\<close> (\<open>None\<close>, read as zero, or an array of shape \<open>(B, D)\<close>), provided that in the
  case \<open>L = 1\<close> with \<open>h0 = None\<close> every entry satisfies \<open>a * 0 + x = x\<close> (as every finite
  floating-point coefficient does), \<open>rnn_scan\<close> returns a pair \<open>(y, h)\<close> with
  \<open>y[:, t] = a[:, t] * h_{t-1} + x[:, t]\<close> for every \<open>t < L\<close>, where \<open>h_{-1} = h0\<close> and
  \<open>h_{t-1} = y[:, t-1]\<close> otherwise, and \<open>h\<close> is \<open>y[:, L-1]\<close>. The operations are those of
  the entry type, of which nothing else is assumed.
\<close>

theorem rnn_scan_recurrence:
  fixes x a :: "'a::{zero,plus,times} array3"
  assumes x: "wf3 x" "shape3 x = (B, L, D)" and a: "wf3 a" "shape3 a = (B, L, D)"
    and h0: "case h0 of None \<Rightarrow> True | Some h \<Rightarrow> wf2 h \<and> shape2 h = (B, D)"
    and L: "1 \<le> L"
    and shortcut: "L = 1 \<Longrightarrow> h0 = None \<Longrightarrow>
      \<forall>b<B. \<forall>d<D. el3 a b 0 d * 0 + el3 x b 0 d = el3 x b 0 d"
  shows "\<exists>y h. rnn_scan x a h0 = Inr (y, h) \<and>
       wf3 y \<and> shape3 y = (B, L, D) \<and> wf2 h \<and> shape2 h = (B, D) \<and>
       (\<forall>b<B. \<forall>d<D.
          (\<forall>t<L. el3 y b t d =
             el3 a b t d * (if t = 0 then initial_state h0 b d else el3 y b (t - 1) d)
             + el3 x b t d) \<and>
          el2 h b d = el3 y b (L - 1) d) \<and>
       frame y (int (L - 1)) = Inr h"
proof -
  have "\<exists>y h. rnn_scan x a h0 = Inr (y, h) \<and>
       wf3 y \<and> shape3 y = (B, L, D) \<and> wf2 h \<and> shape2 h = (B, D) \<and>
       (\<forall>b<B. \<forall>d<D.
          (\<forall>t<L. el3 y b t d =
             el3 a b t d * (if t = 0 then initial_state h0 b d else el3 y b (t - 1) d)
             + el3 x b t d) \<and>
          el2 h b d = el3 y b (L - 1) d)"
  proof (cases "L = 1")
    case True
    have rs: "rnn_scan x a h0 = sampling_mode x a h0"
      by (simp add: rnn_scan_def x(2) a(2) True)
    from sampling_mode_ok [OF x(1) x(2) [unfolded True] a(1) a(2) [unfolded True] h0
        shortcut [OF True]]
    show ?thesis unfolding rs True by simp
  next
    case False
    have rs: "rnn_scan x a h0 = linear_mode x a h0"
      using False by (simp add: rnn_scan_def x(2) a(2))
    from linear_mode_ok [OF x a h0 L] show ?thesis unfolding rs .
  qed
  then obtain y h where res: "rnn_scan x a h0 = Inr (y, h)"
    and wf: "wf3 y" "shape3 y = (B, L, D)" "wf2 h" "shape2 h = (B, D)"
    and post: "\<forall>b<B. \<forall>d<D.
          (\<forall>t<L. el3 y b t d =
             el3 a b t d * (if t = 0 then initial_state h0 b d else el3 y b (t - 1) d)
             + el3 x b t d) \<and>
          el2 h b d = el3 y b (L - 1) d"
    by blast
  from L have "L - 1 < L" by simp
  from frame_ok [OF wf(1,2) this] obtain f where f: "frame y (int (L - 1)) = Inr f"
    "wf2 f" "shape2 f = (B, D)" "\<And>b d. b < B \<Longrightarrow> d < D \<Longrightarrow> el2 f b d = el3 y b (L - 1) d"
    by blast
  have "f = h"
    by (rule array2_eqI [OF f(2,3) wf(3,4)]) (simp add: f(4) post)
  with res wf post f(1) show ?thesis by blast
qed

text \<open>The theorem at two inputs: three steps on integers from a given state, and one
  step on floating-point entries with finite coefficients and no state.\<close>

theorem rnn_scan_recurrence_witness:
  "(\<exists>y h. rnn_scan demo_x demo_a (Some demo_h) = Inr (y, h) \<and> shape3 y = (1, 3, 2) \<and>
      el3 y 0 0 0 = 21 \<and> el3 y 0 1 0 = 66 \<and> el3 y 0 2 0 = 71 \<and>
      el2 h 0 0 = 71 \<and> frame y 2 = Inr h) \<and>
   (\<exists>y h. rnn_scan fl_x1 fl_a1 None = Inr (y, h) \<and> shape3 y = (1, 1, 2) \<and>
      el3 y 0 0 0 = Fin 1 \<and> el2 h 0 0 = Fin 1 \<and> frame y 0 = Inr h)"
proof -
  have h0: "case Some demo_h of None \<Rightarrow> True | Some h \<Rightarrow> wf2 h \<and> shape2 h = (1, 2)"
    by (simp add: demo_arrays_wf)
  have L: "(1::nat) \<le> 3" by simp
  have no_shortcut: "(3::nat) = 1 \<Longrightarrow> Some demo_h = None \<Longrightarrow>
      \<forall>b<1. \<forall>d<2. el3 demo_a b 0 d * 0 + el3 demo_x b 0 d = el3 demo_x b 0 d"
    by simp
  from rnn_scan_recurrence [OF demo_arrays_wf(1,2,3,4) h0 L no_shortcut]
  obtain y h where res: "rnn_scan demo_x demo_a (Some demo_h) = Inr (y, h)"
    and s: "shape3 y = (1, 3, 2)"
    and post: "\<forall>b<1. \<forall>d<2. (\<forall>t<3. el3 y b t d =
         el3 demo_a b t d * (if t = 0 then initial_state (Some demo_h) b d
                             else el3 y b (t - 1) d) + el3 demo_x b t d) \<and>
         el2 h b d = el3 y b (3 - 1) d"
    and fr: "frame y (int (3 - 1)) = Inr h"
    by blast
  from post have step: "\<And>t. t < 3 \<Longrightarrow> el3 y 0 t 0 =
         el3 demo_a 0 t 0 * (if t = 0 then initial_state (Some demo_h) 0 0
                             else el3 y 0 (t - 1) 0) + el3 demo_x 0 t 0"
    and last: "el2 h 0 0 = el3 y 0 (3 - 1) 0"
    by simp_all
  have inputs: "initial_state (Some demo_h) 0 0 = 10"
    "el3 demo_a 0 0 0 = 2" "el3 demo_a 0 (Suc 0) 0 = 3" "el3 demo_a 0 2 0 = 1"
    "el3 demo_x 0 0 0 = 1" "el3 demo_x 0 (Suc 0) 0 = 3" "el3 demo_x 0 2 0 = 5"
    by (simp_all add: initial_state_def el2_def el3_def demo_a_def demo_x_def demo_h_def)
  have e0: "el3 y 0 0 0 = 21" using step [of 0] by (simp add: inputs)
  have e1: "el3 y 0 (Suc 0) 0 = 66" using step [of 1] by (simp add: inputs e0)
  have "el3 y 0 2 0 = el3 demo_a 0 2 0 * el3 y 0 (2 - 1) 0 + el3 demo_x 0 2 0"
    using step [of 2] by simp
  then have e2: "el3 y 0 2 0 = 71" by (simp add: inputs e1)
  have e3: "el2 h 0 0 = 71" using last e2 by simp
  from fr have "frame y 2 = Inr h" by simp
  with res s e0 e1 e2 e3 have first: "\<exists>y h. rnn_scan demo_x demo_a (Some demo_h) = Inr (y, h) \<and>
      shape3 y = (1, 3, 2) \<and> el3 y 0 0 0 = 21 \<and> el3 y 0 1 0 = 66 \<and> el3 y 0 2 0 = 71 \<and>
      el2 h 0 0 = 71 \<and> frame y 2 = Inr h"
    by simp
  have n0: "case (None :: fval array2 option) of None \<Rightarrow> True
            | Some h \<Rightarrow> wf2 h \<and> shape2 h = (1, 2)"
    by simp
  have L1: "(1::nat) \<le> 1" by simp
  from rnn_scan_recurrence [OF fl_arrays_wf(1,2,3,4) n0 L1 fl_a1_absorb]
  obtain z g where res': "rnn_scan fl_x1 fl_a1 None = Inr (z, g)"
    and s': "shape3 z = (1, 1, 2)"
    and post': "\<forall>b<1. \<forall>d<2. (\<forall>t<1. el3 z b t d =
         el3 fl_a1 b t d * (if t = 0 then initial_state None b d
                            else el3 z b (t - 1) d) + el3 fl_x1 b t d) \<and>
         el2 g b d = el3 z b (1 - 1) d"
    and fr': "frame z (int (1 - 1)) = Inr g"
    by blast
  from post' have z0: "el3 z 0 0 0 = el3 fl_a1 0 0 0 * initial_state None 0 0 + el3 fl_x1 0 0 0"
    and g0: "el2 g 0 0 = el3 z 0 0 0"
    by simp_all
  have "el3 fl_a1 0 0 0 * initial_state None 0 0 + el3 fl_x1 0 0 0 = Fin 1"
    by (simp add: initial_state_def el3_def fl_a1_def fl_x1_def zero_fval_def)
  with z0 g0 have "el3 z 0 0 0 = Fin 1" "el2 g 0 0 = Fin 1" by simp_all
  moreover from fr' have "frame z 0 = Inr g" by simp
  ultimately have second: "\<exists>y h. rnn_scan fl_x1 fl_a1 None = Inr (y, h) \<and>
      shape3 y = (1, 1, 2) \<and> el3 y 0 0 0 = Fin 1 \<and> el2 h 0 0 = Fin 1 \<and> frame y 0 = Inr h"
    using res' s' by blast
  from first second show ?thesis by (rule conjI)
qed

text \<open>
  With an infinite coefficient, one step and no initial state, \<open>rnn_scan\<close> returns \<open>x\<close>
  itself, whose first entry is 1, where the recurrence from the zero state gives
  \<open>inf * 0 + 1\<close>, which is NaN.
\<close>

theorem rnn_scan_recurrence_counterexample:
  "rnn_scan fl_x1 fl_a_inf None =
     Inr (fl_x1, \<lparr>shape2 = (1, 2), rows2 = [[Fin 1, Fin 2]]\<rparr>) \<and>
   el3 fl_x1 0 0 0 = Fin 1 \<and>
   el3 fl_a_inf 0 0 0 * initial_state None 0 0 + el3 fl_x1 0 0 0 = NaN"
  by code_simp

text \<open>
  Claim C7, amended. For every input of sequence length 1: with an initial state, the
  sampling-mode branch of \<open>rnn_scan\<close> returns the pair that the linear-scan branch
  returns on the same input; without one (\<open>h0 = None\<close>) it does so provided every entry
  satisfies \<open>a * 0 + x = x\<close>, as every finite floating-point coefficient does. The
  operations are those of the entry type, of which nothing else is assumed.
\<close>

theorem sampling_mode_is_linear_mode:
  fixes x a :: "'a::{zero,plus,times} array3"
  assumes x: "wf3 x" "shape3 x = (B, 1, D)" and a: "wf3 a" "shape3 a = (B, 1, D)"
    and h0: "case h0 of None \<Rightarrow> True | Some h \<Rightarrow> wf2 h \<and> shape2 h = (B, D)"
    and absorb: "h0 = None \<Longrightarrow>
      \<forall>b<B. \<forall>d<D. el3 a b 0 d * 0 + el3 x b 0 d = el3 x b 0 d"
  shows "\<exists>r. sampling_mode x a h0 = Inr r \<and> linear_mode x a h0 = Inr r"
proof -
  from sampling_mode_ok [OF x a h0 absorb] obtain y h
    where s: "sampling_mode x a h0 = Inr (y, h)"
      and wf: "wf3 y" "shape3 y = (B, 1, D)" "wf2 h" "shape2 h = (B, D)"
      and post: "\<And>b d. b < B \<Longrightarrow> d < D \<Longrightarrow>
          el3 y b 0 d = el3 a b 0 d * initial_state h0 b d + el3 x b 0 d \<and>
          el2 h b d = el3 y b 0 d"
    by blast
  have one: "(1::nat) \<le> 1" by simp
  from linear_mode_ok [OF x a h0 one] obtain y' h'
    where l: "linear_mode x a h0 = Inr (y', h')"
      and wf': "wf3 y'" "shape3 y' = (B, 1, D)" "wf2 h'" "shape2 h' = (B, D)"
      and post': "\<And>b d. b < B \<Longrightarrow> d < D \<Longrightarrow>
          el3 y' b 0 d = el3 a b 0 d * initial_state h0 b d + el3 x b 0 d \<and>
          el2 h' b d = el3 y' b 0 d"
    by auto
  have "y = y'"
    by (rule array3_eqI [OF wf(1,2) wf'(1,2)]) (simp add: post post')
  moreover have "h = h'"
    by (rule array2_eqI [OF wf(3,4) wf'(3,4)]) (simp add: post post')
  ultimately show ?thesis using s l by simp
qed

theorem sampling_mode_is_linear_mode_witness:
  "(\<exists>r. sampling_mode demo_x1 demo_a1 (Some demo_h) = Inr r \<and>
        linear_mode demo_x1 demo_a1 (Some demo_h) = Inr r) \<and>
   (\<exists>r. sampling_mode fl_x1 fl_a1 None = Inr r \<and> linear_mode fl_x1 fl_a1 None = Inr r)"
proof -
  have h0: "case Some demo_h of None \<Rightarrow> True | Some h \<Rightarrow> wf2 h \<and> shape2 h = (1, 2)"
    by (simp add: demo_arrays_wf)
  have some: "Some demo_h = None \<Longrightarrow>
      \<forall>b<1. \<forall>d<2. el3 demo_a1 b 0 d * 0 + el3 demo_x1 b 0 d = el3 demo_x1 b 0 d"
    by simp
  have n0: "case (None :: fval array2 option) of None \<Rightarrow> True
            | Some h \<Rightarrow> wf2 h \<and> shape2 h = (1, 2)"
    by simp
  from sampling_mode_is_linear_mode [OF demo_arrays_wf(5,6,7,8) h0 some]
    sampling_mode_is_linear_mode [OF fl_arrays_wf(1,2,3,4) n0 fl_a1_absorb]
  show ?thesis by blast
qed

text \<open>
  With an infinite coefficient and no initial state the two branches differ: the
  sampling branch returns \<open>x\<close>, the linear branch computes \<open>inf * 0 + 1\<close>, which is NaN.
\<close>

theorem sampling_mode_is_linear_mode_counterexample:
  "sampling_mode fl_x1 fl_a_inf None =
     Inr (\<lparr>shape3 = (1, 1, 2), vals3 = [[[Fin 1, Fin 2]]]\<rparr>,
          \<lparr>shape2 = (1, 2), rows2 = [[Fin 1, Fin 2]]\<rparr>) \<and>
   linear_mode fl_x1 fl_a_inf None =
     Inr (\<lparr>shape3 = (1, 1, 2), vals3 = [[[NaN, Fin 2]]]\<rparr>,
          \<lparr>shape2 = (1, 2), rows2 = [[NaN, Fin 2]]\<rparr>)"
  by code_simp

text \<open>The values of the two branches on the integer inputs.\<close>

lemma sampling_mode_demo:
  "sampling_mode demo_x1 demo_a1 (Some demo_h) =
     Inr (\<lparr>shape3 = (1, 1, 2), vals3 = [[[21, 62]]]\<rparr>, \<lparr>shape2 = (1, 2), rows2 = [[21, 62]]\<rparr>)"
  by code_simp

lemma linear_mode_demo:
  "linear_mode demo_x1 demo_a1 (Some demo_h) =
     Inr (\<lparr>shape3 = (1, 1, 2), vals3 = [[[21, 62]]]\<rparr>, \<lparr>shape2 = (1, 2), rows2 = [[21, 62]]\<rparr>)"
  by code_simp

section \<open>The cache of Conv1d\<close>

lemma pad_axis1_low_ok:
  fixes x :: "'a::zero array3"
  assumes "wf3 x" and "shape3 x = (B, L, C)"
  shows "\<exists>x'. pad_axis1_low (int n) x = Inr x' \<and> wf3 x' \<and> shape3 x' = (B, n + L, C)"
proof -
  note l = wf3_lengths [OF assms]
  let ?x = "\<lparr>shape3 = (B, n + L, C),
             vals3 = map (\<lambda>r. replicate n (replicate C 0) @ r) (vals3 x)\<rparr>"
  have "pad_axis1_low (int n) x = Inr ?x" by (simp add: pad_axis1_low_def assms(2))
  moreover have "wf3 ?x"
  proof (rule wf3I [of _ B "n + L" C])
    show "length (vals3 ?x ! b ! t) = C" if "b < B" "t < n + L" for b t
      using that l by (simp add: nth_append)
  qed (use l in simp_all)
  ultimately show ?thesis by simp
qed

lemma concatenate1_ok:
  assumes "wf3 c" and "shape3 c = (B, Lc, C)" and "wf3 x" and "shape3 x = (B, L, C)"
  shows "\<exists>x'. concatenate1 c x = Inr x' \<and> wf3 x' \<and> shape3 x' = (B, Lc + L, C)"
proof -
  note lc = wf3_lengths [OF assms(1,2)] and lx = wf3_lengths [OF assms(3,4)]
  let ?x = "\<lparr>shape3 = (B, Lc + L, C), vals3 = map2 (@) (vals3 c) (vals3 x)\<rparr>"
  have "concatenate1 c x = Inr ?x" by (simp add: concatenate1_def assms(2,4))
  moreover have "wf3 ?x"
  proof (rule wf3I [of _ B "Lc + L" C])
    show "length (vals3 ?x ! b ! t) = C" if "b < B" "t < Lc + L" for b t
      using that lc lx by (simp add: nth_append)
  qed (use lc lx in simp_all)
  ultimately show ?thesis by simp
qed

lemma slice_last_frames:
  assumes "wf3 x'" and "shape3 x' = (B, n + L, C)" and "0 < n"
  shows "slice_axis1_from (- int (Suc n) + 1) x' =
           \<lparr>shape3 = (B, n, C), vals3 = map (drop L) (vals3 x')\<rparr>"
    and "wf3 \<lparr>shape3 = (B, n, C), vals3 = map (drop L) (vals3 x')\<rparr>"
proof -
  note l = wf3_lengths [OF assms(1,2)]
  have s: "axis_start (- int n) (n + L) = L"
    using assms(3) by (simp add: axis_start_def)
  show "slice_axis1_from (- int (Suc n) + 1) x' =
           \<lparr>shape3 = (B, n, C), vals3 = map (drop L) (vals3 x')\<rparr>"
    by (simp add: slice_axis1_from_def assms(2) s Let_def)
  show "wf3 \<lparr>shape3 = (B, n, C), vals3 = map (drop L) (vals3 x')\<rparr>"
  proof (rule wf3I [of _ B n C])
    show "length (vals3 \<lparr>shape3 = (B, n, C), vals3 = map (drop L) (vals3 x')\<rparr> ! b ! t) = C"
      if "b < B" "t < n" for b t
      using that l by simp
  qed (use l in simp_all)
qed

text \<open>
  For a kernel size of at least 2: a call that returns, on an input of shape
  \<open>(B, L, C)\<close> and with no cache or a cache of shape \<open>(B, K - 1, C)\<close>, returns a cache
  of shape \<open>(B, K - 1, C)\<close> that holds the frames of the padded or concatenated input
  after its first \<open>L\<close>, which are its last \<open>K - 1\<close>.
\<close>

lemma Conv1d_cache_kept:
  fixes x :: "'a::semiring_0 array3"
  assumes x: "wf3 x" "shape3 x = (B, L, C)"
    and w: "shape3 (weight m) = (G, K, W)" and K: "2 \<le> K"
    and c: "case cache of None \<Rightarrow> True | Some c \<Rightarrow> wf3 c \<and> shape3 c = (B, K - 1, C)"
    and call: "Conv1d_call conv m x cache = Inr (y, c')"
  shows "\<exists>x'. (case cache of Some c \<Rightarrow> concatenate1 c x
                | None \<Rightarrow> pad_axis1_low (int K - 1) x) = Inr x' \<and>
              wf3 x' \<and> shape3 x' = (B, K - 1 + L, C) \<and>
              c' = \<lparr>shape3 = (B, K - 1, C), vals3 = map (drop L) (vals3 x')\<rparr> \<and> wf3 c'"
proof -
  from K obtain n where n: "K = Suc n" "0 < n" by (cases K) auto
  have "\<exists>x'. (case cache of Some c \<Rightarrow> concatenate1 c x
                | None \<Rightarrow> pad_axis1_low (int K - 1) x) = Inr x' \<and>
              wf3 x' \<and> shape3 x' = (B, n + L, C)"
  proof (cases cache)
    case None
    have "int K - 1 = int n" by (simp add: n)
    with pad_axis1_low_ok [OF x, of n] None show ?thesis by simp
  next
    case (Some c0)
    with c n have "wf3 c0" "shape3 c0 = (B, n, C)" by simp_all
    from concatenate1_ok [OF this x] Some show ?thesis by simp
  qed
  then obtain x' where x': "(case cache of Some c \<Rightarrow> concatenate1 c x
                | None \<Rightarrow> pad_axis1_low (int K - 1) x) = Inr x'"
    "wf3 x'" "shape3 x' = (B, n + L, C)" by blast
  from call have "c' = slice_axis1_from (- int K + 1) x'"
    by (simp add: Conv1d_call_def w x'(1) split: sum.splits)
  with slice_last_frames [OF x'(2,3) n(2)]
  have "c' = \<lparr>shape3 = (B, n, C), vals3 = map (drop L) (vals3 x')\<rparr>" "wf3 c'"
    by (simp_all add: n(1))
  with x' n show ?thesis by simp
qed

text \<open>The shape of the cache is kept through every sequence of calls that return.\<close>

lemma conv_calls_cache_kept:
  fixes xs :: "'a::semiring_0 array3 list"
  assumes w: "shape3 (weight m) = (G, K, W)" and K: "2 \<le> K"
  shows "list_all (\<lambda>x. wf3 x \<and> fst (shape3 x) = B \<and> snd (snd (shape3 x)) = C) xs \<Longrightarrow>
         xs \<noteq> [] \<Longrightarrow>
         (case cache of None \<Rightarrow> True | Some c \<Rightarrow> wf3 c \<and> shape3 c = (B, K - 1, C)) \<Longrightarrow>
         conv_calls conv m xs cache = Inr r \<Longrightarrow>
         (\<exists>c. r = Some c \<and> wf3 c \<and> shape3 c = (B, K - 1, C))"
proof (induction xs arbitrary: cache)
  case Nil
  then show ?case by simp
next
  case (Cons x xs)
  from Cons.prems(1) obtain L where x: "wf3 x" "shape3 x = (B, L, C)"
    by (cases "shape3 x") auto
  from Cons.prems(4) obtain y c1 where call: "Conv1d_call conv m x cache = Inr (y, c1)"
    and rest: "conv_calls conv m xs (Some c1) = Inr r"
    by (auto split: sum.splits)
  from Conv1d_cache_kept [OF x w K Cons.prems(3) call]
  have c1: "wf3 c1" "shape3 c1 = (B, K - 1, C)" by auto
  show ?case
  proof (cases xs)
    case Nil
    with rest c1 show ?thesis by auto
  next
    case (Cons x2 xs2)
    then have ne: "xs \<noteq> []" by simp
    from Cons.prems(1) have all: "list_all (\<lambda>x. wf3 x \<and> fst (shape3 x) = B \<and>
        snd (snd (shape3 x)) = C) xs" by simp
    have inv: "case Some c1 of None \<Rightarrow> True | Some c \<Rightarrow> wf3 c \<and> shape3 c = (B, K - 1, C)"
      using c1 by simp
    from Cons.IH [OF all ne inv rest] show ?thesis .
  qed
qed

lemma demo_conv_shapes:
  "shape3 (weight demo_conv1) = (2, 1, 1)" "shape3 (weight demo_conv2) = (2, 2, 1)"
  by (simp_all add: demo_conv1_def demo_conv2_def)

lemma Conv1d_cache_kept_demo:
  "Conv1d_call depthwise_conv demo_conv2 demo_x None =
     Inr (\<lparr>shape3 = (1, 3, 2), vals3 = [[[1, 104], [4, 110], [8, 116]]]\<rparr>,
          \<lparr>shape3 = (1, 1, 2), vals3 = [[[5, 6]]]\<rparr>)"
  by (simp add: Conv1d_call_def demo_conv2_def demo_x_def pad_axis1_low_def
      depthwise_conv_def add_bias_def slice_axis1_from_def axis_start_def upt_conv_Cons)

text \<open>
  Claim C8 at kernel size 1. The first call, on an input of one frame and without a
  cache, returns a cache of one frame (the whole input) where \<open>kernel_size - 1 = 0\<close>
  frames are due; handed to the next call, that cache makes the output two frames long
  for an input of one frame, and the cache returned two frames long.
\<close>

theorem Conv1d_kernel_size_one:
  "Conv1d_call depthwise_conv demo_conv1 demo_x1 None =
     Inr (\<lparr>shape3 = (1, 1, 2), vals3 = [[[1, 2]]]\<rparr>,
          \<lparr>shape3 = (1, 1, 2), vals3 = [[[1, 2]]]\<rparr>) \<and>
   Conv1d_call depthwise_conv demo_conv1 demo_x1
       (Some \<lparr>shape3 = (1, 1, 2), vals3 = [[[1, 2]]]\<rparr>) =
     Inr (\<lparr>shape3 = (1, 2, 2), vals3 = [[[1, 2], [1, 2]]]\<rparr>,
          \<lparr>shape3 = (1, 2, 2), vals3 = [[[1, 2], [1, 2]]]\<rparr>)"
  by (simp add: Conv1d_call_def demo_conv1_def demo_x1_def pad_axis1_low_def
      concatenate1_def depthwise_conv_def add_bias_def slice_axis1_from_def axis_start_def
      upt_conv_Cons)

section \<open>The cache slots of a recurrent block\<close>

lemma demo_kernels_fields:
  "linear_y demo_kernels = (\<lambda>x. x)" "linear_x demo_kernels = (\<lambda>x. x)"
  "linear_out demo_kernels = (\<lambda>x. x)" "gelu_approx demo_kernels = (\<lambda>x. x)"
  "conv_general demo_kernels = depthwise_conv" "conv_1d demo_kernels = demo_conv2"
  "gate_x_of demo_kernels = ones_like" "a_of demo_kernels = ones_like"
  "multiplier_of demo_kernels = ones_like"
  by (simp_all add: demo_kernels_def)

lemma demo_conv_step:
  "Conv1d_call depthwise_conv demo_conv2 demo_x1 None =
     Inr (\<lparr>shape3 = (1, 1, 2), vals3 = [[[1, 104]]]\<rparr>,
          \<lparr>shape3 = (1, 1, 2), vals3 = [[[1, 2]]]\<rparr>)"
  "Conv1d_call depthwise_conv demo_conv2 demo_x1
       (Some \<lparr>shape3 = (1, 1, 2), vals3 = [[[1, 2]]]\<rparr>) =
     Inr (\<lparr>shape3 = (1, 1, 2), vals3 = [[[2, 106]]]\<rparr>,
          \<lparr>shape3 = (1, 1, 2), vals3 = [[[1, 2]]]\<rparr>)"
  "Conv1d_call depthwise_conv demo_conv2 demo_x1
       (Some \<lparr>shape3 = (1, 1, 2), vals3 = [[[0, 0]]]\<rparr>) =
     Inr (\<lparr>shape3 = (1, 1, 2), vals3 = [[[1, 104]]]\<rparr>,
          \<lparr>shape3 = (1, 1, 2), vals3 = [[[1, 2]]]\<rparr>)"
  by code_simp+

lemma demo_rglru_step:
  "RGLRU_call demo_kernels \<lparr>shape3 = (1, 1, 2), vals3 = [[[1, 104]]]\<rparr> None =
     Inr (\<lparr>shape3 = (1, 1, 2), vals3 = [[[1, 104]]]\<rparr>,
          \<lparr>shape2 = (1, 2), rows2 = [[1, 104]]\<rparr>)"
  "RGLRU_call demo_kernels \<lparr>shape3 = (1, 1, 2), vals3 = [[[2, 106]]]\<rparr>
       (Some \<lparr>shape2 = (1, 2), rows2 = [[1, 104]]\<rparr>) =
     Inr (\<lparr>shape3 = (1, 1, 2), vals3 = [[[3, 210]]]\<rparr>,
          \<lparr>shape2 = (1, 2), rows2 = [[3, 210]]\<rparr>)"
  "RGLRU_call demo_kernels \<lparr>shape3 = (1, 1, 2), vals3 = [[[1, 104]]]\<rparr>
       (Some \<lparr>shape2 = (1, 2), rows2 = [[1, 104]]\<rparr>) =
     Inr (\<lparr>shape3 = (1, 1, 2), vals3 = [[[2, 208]]]\<rparr>,
          \<lparr>shape2 = (1, 2), rows2 = [[2, 208]]\<rparr>)"
  "RGLRU_call demo_kernels \<lparr>shape3 = (1, 1, 2), vals3 = [[[2, 106]]]\<rparr>
       (Some \<lparr>shape2 = (1, 2), rows2 = [[0, 0]]\<rparr>) =
     Inr (\<lparr>shape3 = (1, 1, 2), vals3 = [[[2, 106]]]\<rparr>,
          \<lparr>shape2 = (1, 2), rows2 = [[2, 106]]\<rparr>)"
  by code_simp+

text \<open>A call without a cache fills both slots of its fresh list.\<close>

lemma demo_block_first_call:
  "RecurrentBlock_call demo_kernels demo_x1 None =
     (Inr \<lparr>shape3 = (1, 1, 2), vals3 = [[[1, 208]]]\<rparr>,
      \<lparr>slot0 = Some \<lparr>shape3 = (1, 1, 2), vals3 = [[[1, 2]]]\<rparr>,
       slot1 = Some \<lparr>shape2 = (1, 2), rows2 = [[1, 104]]\<rparr>\<rparr>)"
  by code_simp

text \<open>
  Claim C3, amended. The cache of a recurrent layer has two slots. A forward call
  through the block that returns has handed slot 0 to the temporal convolution and slot 1
  to the RG-LRU, and leaves in slot 0 the state the convolution returned and in slot 1
  the hidden state the RG-LRU returned; nothing else of the cache is carried over.
\<close>

theorem RecurrentBlock_cache_slots:
  fixes k :: "'a::semiring_1 block_kernels"
  assumes "RecurrentBlock_call k x cache = (Inr out, c')"
  shows "\<exists>x2 s0 x3 s1.
           Conv1d_call (conv_general k) (conv_1d k) (linear_x k x)
             (case cache of None \<Rightarrow> None | Some c \<Rightarrow> slot0 c) = Inr (x2, s0) \<and>
           RGLRU_call k x2 (case cache of None \<Rightarrow> None | Some c \<Rightarrow> slot1 c) = Inr (x3, s1) \<and>
           c' = \<lparr>slot0 = Some s0, slot1 = Some s1\<rparr>"
proof -
  define c where "c = (case cache of None \<Rightarrow> \<lparr>slot0 = None, slot1 = None\<rparr> | Some c \<Rightarrow> c)"
  have c0: "slot0 c = (case cache of None \<Rightarrow> None | Some c \<Rightarrow> slot0 c)"
    and c1: "slot1 c = (case cache of None \<Rightarrow> None | Some c \<Rightarrow> slot1 c)"
    by (simp_all add: c_def split: option.splits)
  from assms obtain x2 s0 where conv:
    "Conv1d_call (conv_general k) (conv_1d k) (linear_x k x) (slot0 c) = Inr (x2, s0)"
    by (cases "Conv1d_call (conv_general k) (conv_1d k) (linear_x k x) (slot0 c)")
       (auto simp: RecurrentBlock_call_def c_def Let_def)
  from assms conv obtain x3 s1 where lru: "RGLRU_call k x2 (slot1 c) = Inr (x3, s1)"
    by (cases "RGLRU_call k x2 (slot1 c)")
       (auto simp: RecurrentBlock_call_def c_def [symmetric] Let_def)
  from assms conv lru have "c' = c\<lparr>slot0 := Some s0, slot1 := Some s1\<rparr>"
    by (auto simp: RecurrentBlock_call_def c_def [symmetric] Let_def split: sum.splits)
  then have "c' = \<lparr>slot0 = Some s0, slot1 = Some s1\<rparr>" by simp
  with conv lru show ?thesis unfolding c0 c1 by blast
qed

theorem RecurrentBlock_cache_slots_witness:
  "\<exists>x2 s0 x3 s1.
     Conv1d_call depthwise_conv demo_conv2 demo_x1 None = Inr (x2, s0) \<and>
     RGLRU_call demo_kernels x2 None = Inr (x3, s1) \<and>
     snd (RecurrentBlock_call demo_kernels demo_x1 None) = \<lparr>slot0 = Some s0, slot1 = Some s1\<rparr>"
  using RecurrentBlock_cache_slots [OF demo_block_first_call]
  by (simp add: demo_kernels_fields demo_block_first_call)

text \<open>
  A call without a cache writes two state arrays, one into each slot. A call with a
  cache reads both slots: its result changes when slot 0 alone is replaced, and when
  slot 1 alone is replaced.
\<close>

theorem RecurrentBlock_two_slots_counterexample:
  "snd (RecurrentBlock_call demo_kernels demo_x1 None) =
     \<lparr>slot0 = Some \<lparr>shape3 = (1, 1, 2), vals3 = [[[1, 2]]]\<rparr>,
      slot1 = Some \<lparr>shape2 = (1, 2), rows2 = [[1, 104]]\<rparr>\<rparr> \<and>
   fst (RecurrentBlock_call demo_kernels demo_x1
          (Some \<lparr>slot0 = Some \<lparr>shape3 = (1, 1, 2), vals3 = [[[1, 2]]]\<rparr>,
                 slot1 = Some \<lparr>shape2 = (1, 2), rows2 = [[1, 104]]\<rparr>\<rparr>)) =
     Inr \<lparr>shape3 = (1, 1, 2), vals3 = [[[3, 420]]]\<rparr> \<and>
   fst (RecurrentBlock_call demo_kernels demo_x1
          (Some \<lparr>slot0 = Some \<lparr>shape3 = (1, 1, 2), vals3 = [[[0, 0]]]\<rparr>,
                 slot1 = Some \<lparr>shape2 = (1, 2), rows2 = [[1, 104]]\<rparr>\<rparr>)) =
     Inr \<lparr>shape3 = (1, 1, 2), vals3 = [[[2, 416]]]\<rparr> \<and>
   fst (RecurrentBlock_call demo_kernels demo_x1
          (Some \<lparr>slot0 = Some \<lparr>shape3 = (1, 1, 2), vals3 = [[[1, 2]]]\<rparr>,
                 slot1 = Some \<lparr>shape2 = (1, 2), rows2 = [[0, 0]]\<rparr>\<rparr>)) =
     Inr \<lparr>shape3 = (1, 1, 2), vals3 = [[[2, 212]]]\<rparr>"
  by code_simp

section \<open>Griffin.\_\_call\_\_ without a mask\<close>

text \<open>Over recurrent layers only, the first loop leaves \<open>mask_cache\<close> as it was.\<close>

lemma find_mask_cache_recurrent:
  "list_all (\<lambda>b. temporal_block_type b = ''recurrent'') (map snd blocks) \<Longrightarrow>
     find_mask_cache blocks cache mc = Inr mc"
  by (induction blocks cache mc rule: find_mask_cache.induct) simp_all

lemma Griffin_call_all_recurrent:
  assumes "list_all (\<lambda>b. temporal_block_type b = ''recurrent'') (layers g)"
  shows "Griffin_call k g tokens None cache = Inl UnboundLocalError"
proof -
  let ?blocks = "zip [0..<length (layers g)] (layers g)"
  have "map snd ?blocks = layers g" by simp
  with assms have "list_all (\<lambda>b. temporal_block_type b = ''recurrent'') (map snd ?blocks)"
    by simp
  then have "find_mask_cache ?blocks c None = Inr None" for c :: "'d option list"
    by (rule find_mask_cache_recurrent)
  then show ?thesis by (simp add: Griffin_call_def Let_def)
qed

text \<open>With a layer that is not recurrent and no cache passed in, the first loop binds
  \<open>mask_cache\<close> to \<open>[None]\<close>, and the call goes on to the blocks.\<close>

lemma find_mask_cache_bound:
  assumes "\<forall>(i, b) \<in> set blocks. i < n"
  shows "find_mask_cache blocks (replicate n None) mc =
           Inr (if list_all (\<lambda>b. temporal_block_type b = ''recurrent'') (map snd blocks)
                then mc else Some [None])"
  using assms
proof (induction blocks arbitrary: mc)
  case Nil
  show ?case by simp
next
  case (Cons p blocks)
  obtain i b where p: "p = (i, b)" by (cases p)
  with Cons.prems have i: "i < n" and rest: "\<forall>(i, b) \<in> set blocks. i < n" by simp_all
  show ?case
    using Cons.IH [OF rest] i by (simp add: p list_item_def)
qed

lemma recurrent_config_fields:
  "block_types recurrent_config = Some [''recurrent'']"
  "num_hidden_layers recurrent_config = 5"
  "num_attention_heads recurrent_config = 10"
  "hidden_size recurrent_config = 2560"
  by (simp_all add: recurrent_config_def demo_config_def post_init_def)

lemma recurrent_config_layers:
  assumes "Griffin_init recurrent_config = Inr g"
  shows "list_all (\<lambda>b. temporal_block_type b = ''recurrent'') (layers g)"
proof -
  have ne: "[''recurrent''] \<noteq> []" by simp
  from layer_types_of_init [OF recurrent_config_fields(1) ne assms]
  have "\<forall>i < length (layers g). temporal_block_type (layers g ! i) = ''recurrent''"
    by simp
  then show ?thesis by (simp add: list_all_length)
qed

text \<open>
  Claim C2 on a stack of recurrent layers only. The configuration is constructed, and
  the forward pass of the model it gives, called without a mask and without a cache,
  ends in \<open>UnboundLocalError\<close>, for every input and whatever the framework kernels
  are: \<open>mask_cache\<close> is read in line 407 and was never assigned.
\<close>

theorem Griffin_call_unbound_mask_cache:
  "\<exists>g. Griffin_init recurrent_config = Inr g \<and>
        Griffin_call k g tokens None None = Inl UnboundLocalError"
proof -
  have "\<exists>g. Griffin_init recurrent_config = Inr g"
    by (rule Griffin_init_succeeds [where bts = "[''recurrent'']"])
       (simp_all add: recurrent_config_fields)
  then obtain g where g: "Griffin_init recurrent_config = Inr g" ..
  have "Griffin_call k g tokens None None = Inl UnboundLocalError"
    by (rule Griffin_call_all_recurrent [OF recurrent_config_layers [OF g]])
  with g show ?thesis by simp
qed

end
